theory Spec2Isabelle
  imports Main "HOL-Library.Word" "HOL-Library.Sublist" "HOL-Library.AList"
begin

unbundle bit_operations_syntax

section \<open>The eBPF profiling session (package ebpfspy)\<close>

text \<open>
  A shallow embedding of the session of package \<open>ebpfspy\<close>: the stack walker, the
  classifier of pids, the harvest (\<open>CollectProfiles\<close>), the cleanup, the teardown and the
  handlers of the pid queues. Calls into other packages (the symbol cache, the target
  finder, the kernel maps, procfs) are answers read from an environment record; calls whose
  only result is an effect outside the session are written to a trace, in the order the
  code makes them. A run-time panic of Go is the value \<open>Panic\<close>.
\<close>

subsection \<open>Machine types\<close>

type_synonym byte = "8 word"
type_synonym u32 = "32 word"
type_synonym u64 = "64 word"
type_synonym i64 = "64 word"

text \<open>A Go \<open>error\<close> value; \<open>fmt.Errorf("msg: %w", err)\<close> wraps one.\<close>

datatype error = Err string | Wrap string error

datatype panic = Panic

subsection \<open>Library functions the session calls\<close>

text \<open>
  A byte slice \<open>[]byte\<close>: \<open>bytes\<close> are its elements (its length is theirs), \<open>spare\<close> are the
  bytes of its backing array after them, up to its capacity; \<open>backing\<close> is the array from the
  first element to the capacity. \<open>nil\<close> is \<open>nilSlice\<close>. A slice expression \<open>s[low:high]\<close> is
  checked against the capacity, not the length: it panics unless \<open>low \<le> high \<le> cap(s)\<close>, and
  its elements are those of the backing array from \<open>low\<close> to \<open>high\<close>.
\<close>

record byteSlice =
  bytes :: "byte list"
  spare :: "byte list"

definition backing :: "byteSlice \<Rightarrow> byte list" where
  "backing s = bytes s @ spare s"

definition nilSlice :: byteSlice where
  "nilSlice = \<lparr>bytes = [], spare = []\<rparr>"

definition reslice :: "byteSlice \<Rightarrow> nat \<Rightarrow> nat \<Rightarrow> panic + byte list" where
  "reslice s low high =
     (if low \<le> high \<and> high \<le> length (backing s)
      then Inr (take (high - low) (drop low (backing s)))
      else Inl Panic)"

text \<open>
  \<open>binary.LittleEndian.Uint64\<close>: \<open>uint64(b[0]) | uint64(b[1])<<8 | ... | uint64(b[7])<<56\<close>.
  The session calls it on slices of exactly eight bytes.
\<close>

definition Uint64 :: "byte list \<Rightarrow> u64" where
  "Uint64 b =
     ucast (b ! 0) OR push_bit 8 (ucast (b ! 1)) OR push_bit 16 (ucast (b ! 2)) OR
     push_bit 24 (ucast (b ! 3)) OR push_bit 32 (ucast (b ! 4)) OR
     push_bit 40 (ucast (b ! 5)) OR push_bit 48 (ucast (b ! 6)) OR
     push_bit 56 (ucast (b ! 7))"

text \<open>The verb \<open>%x\<close> of \<open>fmt.Sprintf\<close> on an unsigned integer: lower-case hexadecimal, no padding.\<close>

definition hexdigit :: "nat \<Rightarrow> char" where
  "hexdigit d = ''0123456789abcdef'' ! d"

function hex :: "nat \<Rightarrow> string" where
  "hex n = (if n < 16 then [hexdigit n] else hex (n div 16) @ [hexdigit (n mod 16)])"
  by pat_completeness auto
termination
  by (relation "measure id") auto

subsection \<open>Symbol tables\<close>

text \<open>\<open>symtab.Symbol\<close> and \<open>symtab.SymbolTable\<close> (its method \<open>Resolve\<close>).\<close>

record Symbol =
  Start :: u64
  Name :: string
  Module :: string

type_synonym SymbolTable = "u64 \<Rightarrow> Symbol"

record SessionOptions =
  CollectUser :: bool
  CollectKernel :: bool
  UnknownSymbolModuleOffset :: bool
  UnknownSymbolAddress :: bool
  PythonEnabled :: bool
  Metrics :: "bool option"
  SampleRate :: int

text \<open>
  \<open>Metrics\<close> is a pointer in the source: \<open>None\<close> is the nil pointer, \<open>Some b\<close> a metrics
  object whose \<open>Symtab\<close> pointer is non-nil exactly when \<open>b\<close>. The cache options are opaque
  to the session and left out.
\<close>

record StackResolveStats =
  known :: u32
  unknownSymbols :: u32
  unknownModules :: u32

text \<open>\<open>stackBuilder\<close>: the slice \<open>stack\<close>; \<open>reset\<close> truncates it, \<open>append\<close> adds at the end.\<close>

type_synonym stackBuilder = "string list"

subsection \<open>WalkStack\<close>

text \<open>
  The body of the loop of \<open>WalkStack\<close> from \<open>resolver.Resolve\<close> to the name of the frame
  and the counter it increments.
\<close>

definition resolveFrame ::
  "SessionOptions \<Rightarrow> SymbolTable \<Rightarrow> u64 \<Rightarrow> StackResolveStats \<Rightarrow> string \<times> StackResolveStats" where
  "resolveFrame opts resolver instructionPointer stats =
     (let sym = resolver instructionPointer in
      if Name sym \<noteq> [] then (Name sym, stats\<lparr>known := known stats + 1\<rparr>)
      else if Module sym \<noteq> [] then
        ((if UnknownSymbolModuleOffset opts
          then Module sym @ ''+'' @ hex (unat (Start sym))
          else Module sym),
         stats\<lparr>unknownSymbols := unknownSymbols stats + 1\<rparr>)
      else
        ((if UnknownSymbolAddress opts then hex (unat instructionPointer) else ''[unknown]''),
         stats\<lparr>unknownModules := unknownModules stats + 1\<rparr>))"

text \<open>
  The loop \<open>for i := 0; i < 127; i++\<close>: \<open>stack[i*8 : i*8+8]\<close> panics when \<open>i*8+8\<close> exceeds the
  capacity of \<open>stack\<close>, and reads the backing array past the length when it does not.
\<close>

function WalkStack_loop ::
  "SessionOptions \<Rightarrow> byteSlice \<Rightarrow> SymbolTable \<Rightarrow> nat \<Rightarrow> string list \<Rightarrow> StackResolveStats
     \<Rightarrow> panic + (string list \<times> StackResolveStats)" where
  "WalkStack_loop opts stack resolver i stackFrames stats =
     (if i < 127 then
        (case reslice stack (i * 8) (i * 8 + 8) of
           Inl p \<Rightarrow> Inl Panic
         | Inr instructionPointerBytes \<Rightarrow>
             let instructionPointer = Uint64 instructionPointerBytes
             in if instructionPointer = 0 then Inr (stackFrames, stats)
                else
                  let (name, stats') = resolveFrame opts resolver instructionPointer stats
                  in WalkStack_loop opts stack resolver (i + 1) (stackFrames @ [name]) stats')
      else Inr (stackFrames, stats))"
  by pat_completeness auto
termination
  by (relation "measure (\<lambda>(opts, stack, resolver, i, stackFrames, stats). 127 - i)") auto

declare WalkStack_loop.simps [simp del]

definition WalkStack ::
  "SessionOptions \<Rightarrow> stackBuilder \<Rightarrow> byteSlice \<Rightarrow> SymbolTable \<Rightarrow> StackResolveStats
     \<Rightarrow> panic + (stackBuilder \<times> StackResolveStats)" where
  "WalkStack opts sb stack resolver stats =
     (if length (bytes stack) = 0 then Inr (sb, stats)
      else
        (case WalkStack_loop opts stack resolver 0 [] stats of
           Inl p \<Rightarrow> Inl p
         | Inr (stackFrames, stats') \<Rightarrow> Inr (sb @ rev stackFrames, stats')))"

subsection \<open>The session and its pid table\<close>

text \<open>The constants of \<open>pyrobpf.ProfilingType\<close> that the session names.\<close>

datatype ProfilingType = ProfilingTypeFramepointers | ProfilingTypePython | ProfilingTypeError

text \<open>\<open>procInfoLite\<close>; its field \<open>typ\<close> is written \<open>typ'\<close>.\<close>

record procInfoLite =
  pid :: u32
  comm :: string
  exe :: string
  typ' :: ProfilingType

text \<open>
  The three maps of \<open>pids\<close>. A Go map is a list of its keys (of its entries, for \<open>all\<close>):
  \<open>m[k] = v\<close> is \<open>List.insert\<close> or \<open>AList.update\<close>, \<open>delete(m, k)\<close> is \<open>removeAll\<close> or
  \<open>AList.delete\<close>, and \<open>range m\<close> runs over the list as it is when the loop starts. Go leaves
  the order of \<open>range\<close> open; the theorems hold for every list, so for every order.
\<close>

record pids =
  unknown :: "u32 list"
  dead :: "u32 list"
  all :: "(u32 \<times> procInfoLite) list"

text \<open>
  A goroutine that \<open>Start\<close> launches, named by what it reads: \<open>readEvents\<close> reads the ring
  reader and returns when the reader is closed (\<open>perf.ErrClosed\<close>); each of the three
  processors ranges over its queue and returns when the queue is closed. Each calls
  \<open>wg.Done\<close> when it returns.
\<close>

datatype goroutine = ReadsEvents nat | ReadsChan nat

text \<open>
  The fields of \<open>session\<close> that the session itself reads or writes. Handles (perf events,
  links, the ring reader, channels, the python unwinder) are numbers; \<open>None\<close> is \<open>nil\<close>. An
  entry of \<open>kprobes\<close> is a \<open>link.Link\<close> interface value, which may be \<open>nil\<close>. \<open>roundNumber\<close> is
  a Go \<open>int\<close>. \<open>mutex\<close> is true while the mutex is held. \<open>wg\<close>, the wait group, is the list of
  the goroutines that have been added and have not called \<open>Done\<close>: its counter is the length
  of the list, and \<open>wg.Wait()\<close> returns when the list is empty. The logger is left out.

  The methods other than \<open>stopAndWait\<close> are modelled from after their \<open>Lock\<close> to before their
  deferred \<open>Unlock\<close>, which runs on every path: they leave \<open>mutex\<close> as it is.
\<close>

record session =
  options :: SessionOptions
  roundNumber :: i64
  mutex :: bool
  wg :: "goroutine list"
  started :: bool
  perfEvents :: "nat list"
  kprobes :: "nat option list"
  eventsReader :: "nat option"
  pidInfoRequests :: "nat option"
  deadPIDEvents :: "nat option"
  pidExecRequests :: "nat option"
  pyperf :: "nat option"
  pids :: pids

definition SampleAggregated :: bool where
  "SampleAggregated = True"

definition SampleNotAggregated :: bool where
  "SampleNotAggregated = False"

text \<open>
  What the session does to the world outside its own fields, in the order it does it:
  the callback \<open>cb(target, stack, value, pid, aggregation)\<close> is \<open>Emit\<close>, the others are the calls
  into the symbol cache, the target finder, the python unwinder, the kernel maps and the
  \<open>Close\<close> of each handle, and the \<open>go\<close> statements. Log lines are not recorded.
\<close>

datatype 't effect =
    Emit 't "string list" u64 u32 bool
  | SymCacheNextRound
  | SymCacheCleanup
  | SymCacheRemoveDeadPID u32
  | SymCacheUpdateOptions
  | PyperfRemoveDeadPID u32
  | TargetFinderUpdate
  | TargetFinderRemoveDeadPID u32
  | PidsUpdate u32 ProfilingType bool bool
  | PidsDelete u32
  | GetCountsMapValues
  | ClearCountsMap
  | ClearStacksMap "u32 list"
  | SymtabMetricsAdd 't StackResolveStats
  | UnknownStacksInc 't
  | ClosePerfEvent nat
  | CloseKprobe nat
  | CloseBpf
  | ClosePyperf nat
  | CloseEventsReader nat
  | CloseChan nat
  | FlushKernelSpec
  | GoTryStartPythonProfiling u32 't procInfoLite
  | Go string

text \<open>
  How a call ends: with \<open>nil\<close>, with an error, in a panic, or never, blocked for good on the
  mutex or on the wait group.
\<close>

datatype outcome = Ok | Failed error | Panicked | Blocked

text \<open>\<open>pyrobpf.ProfileSampleKey\<close>: the key of the kernel map \<open>Counts\<close>.\<close>

record ProfileSampleKey =
  Pid :: u32
  KernStack :: i64
  UserStack :: i64

text \<open>\<open>symtab.ProcTable\<close>: its methods \<open>Pid()\<close>, \<open>Error()\<close> and \<open>Resolve\<close>.\<close>

record ProcTable =
  procPid :: int
  procError :: "error option"
  procResolve :: SymbolTable

text \<open>
  The answers of the collaborators during one operation: the target finder, the symbol
  cache, the kernel maps \<open>Stacks\<close>, \<open>Counts\<close> and \<open>Pids\<close>, and procfs
  (\<open>Readlink\<close> of \<open>/proc/<pid>/exe\<close>, \<open>ReadFile\<close> of \<open>/proc/<pid>/comm\<close>, \<open>Stat\<close> of
  \<open>/proc/<pid>\<close>, \<open>StatStatus\<close> of \<open>/proc/<pid>/status\<close>). \<open>getCountsMapValues\<close>,
  \<open>clearCountsMap\<close> and \<open>clearStacksMap\<close> are methods of the session in another file of the
  package; the model takes their results.
\<close>

record 't env =
  FindTarget :: "u32 \<Rightarrow> 't option"
  GetProcTable :: "u32 \<Rightarrow> ProcTable"
  GetKallsyms :: SymbolTable
  LookupBytes :: "u32 \<Rightarrow> error + byteSlice"
  getCountsMapValues :: "error + (ProfileSampleKey list \<times> u32 list \<times> bool)"
  clearCountsMap :: "ProfileSampleKey list \<Rightarrow> bool \<Rightarrow> error option"
  clearStacksMap :: "u32 list \<Rightarrow> error option"
  pythonProfile :: "error option \<times> ('t \<times> string list \<times> u32) list"
  Readlink :: "u32 \<Rightarrow> error + string"
  ReadFile :: "u32 \<Rightarrow> error + string"
  Stat :: "u32 \<Rightarrow> error option"
  StatStatus :: "u32 \<Rightarrow> error option"
  PidsBatchLookup :: "u32 list"

subsection \<open>Classifying a pid\<close>

text \<open>
  \<open>filepath.Base\<close> on Linux: the empty path gives \<open>"."\<close>; trailing slashes are stripped;
  the result is what follows the last slash, or \<open>"/"\<close> when nothing is left.
\<close>

definition Base :: "string \<Rightarrow> string" where
  "Base path =
     (if path = [] then ''.''
      else
        let stripped = rev (dropWhile (\<lambda>c. c = CHR ''/'') (rev path));
            element = rev (takeWhile (\<lambda>c. c \<noteq> CHR ''/'') (rev stripped))
        in if element = [] then ''/'' else element)"

text \<open>
  \<open>selectProfilingType\<close>. \<open>comm[len(comm)-1]\<close> on an empty read panics. In the condition
  \<open>&&\<close> binds tighter than \<open>||\<close>. The target is not used.
\<close>

definition selectProfilingType :: "'t env \<Rightarrow> session \<Rightarrow> u32 \<Rightarrow> 't \<Rightarrow> panic + procInfoLite" where
  "selectProfilingType env s p target =
     (case Readlink env p of
        Inl err \<Rightarrow> Inr \<lparr>pid = p, comm = [], exe = [], typ' = ProfilingTypeError\<rparr>
      | Inr exePath \<Rightarrow>
          (case ReadFile env p of
             Inl err \<Rightarrow> Inr \<lparr>pid = p, comm = [], exe = [], typ' = ProfilingTypeError\<rparr>
           | Inr content \<Rightarrow>
               if content = [] then Inl Panic
               else
                 let comm1 = (if last content = CHR 0x0A then butlast content else content);
                     exe1 = Base exePath
                 in if (PythonEnabled (options s) \<and> prefix ''python'' exe1) \<or> exe1 = ''uwsgi''
                    then Inr \<lparr>pid = p, comm = comm1, exe = [], typ' = ProfilingTypePython\<rparr>
                    else Inr \<lparr>pid = p, comm = comm1, exe = [],
                               typ' = ProfilingTypeFramepointers\<rparr>))"

subsection \<open>The pid table\<close>

definition saveUnknownPIDLocked :: "session \<Rightarrow> u32 \<Rightarrow> session" where
  "saveUnknownPIDLocked s p = s\<lparr>pids := (pids s)\<lparr>unknown := List.insert p (unknown (pids s))\<rparr>\<rparr>"

definition setPidConfig ::
  "session \<Rightarrow> u32 \<Rightarrow> procInfoLite \<Rightarrow> bool \<Rightarrow> bool \<Rightarrow> session \<times> 't effect list" where
  "setPidConfig s p pi collectUser collectKernel =
     (s\<lparr>pids := (pids s)\<lparr>all := AList.update p pi (all (pids s))\<rparr>\<rparr>,
      [PidsUpdate p (typ' pi) collectUser collectKernel])"

text \<open>
  \<open>startProfilingLocked\<close>. For a python pid it only starts the goroutine
  \<open>tryStartPythonProfiling\<close>, which runs later and is not among the sources.
\<close>

definition startProfilingLocked ::
  "'t env \<Rightarrow> session \<Rightarrow> u32 \<Rightarrow> 't \<Rightarrow> session \<times> 't effect list \<times> outcome" where
  "startProfilingLocked env s p target =
     (if \<not> started s then (s, [], Ok)
      else
        (case selectProfilingType env s p target of
           Inl Panic \<Rightarrow> (s, [], Panicked)
         | Inr pi \<Rightarrow>
             if typ' pi = ProfilingTypePython
             then (s, [GoTryStartPythonProfiling p target pi], Ok)
             else
               let (s1, eff) = setPidConfig s p pi (CollectUser (options s)) (CollectKernel (options s))
               in (s1, eff, Ok)))"

text \<open>The body of the loop of \<open>processPidInfoRequests\<close> for one pid of the queue.\<close>

definition processPidInfoRequest :: "'t env \<Rightarrow> session \<Rightarrow> u32 \<Rightarrow> session \<times> 't effect list \<times> outcome" where
  "processPidInfoRequest env s p =
     (let target = FindTarget env p in
      if p \<in> set (dead (pids s)) then (s, [], Ok)
      else
        (case target of
           None \<Rightarrow> (saveUnknownPIDLocked s p, [], Ok)
         | Some t \<Rightarrow> startProfilingLocked env s p t))"

text \<open>The body of the loop of \<open>processPIDExecRequests\<close> for one pid of the queue.\<close>

definition processPIDExecRequest :: "'t env \<Rightarrow> session \<Rightarrow> u32 \<Rightarrow> session \<times> 't effect list \<times> outcome" where
  "processPIDExecRequest env s p =
     (let target = FindTarget env p in
      if p \<in> set (dead (pids s)) then (s, [], Ok)
      else
        (case target of
           None \<Rightarrow> (saveUnknownPIDLocked s p, [], Ok)
         | Some t \<Rightarrow> startProfilingLocked env s p t))"

text \<open>The body of the loop of \<open>processDeadPIDsEvents\<close> for one pid of the queue.\<close>

definition processDeadPIDsEvent :: "session \<Rightarrow> u32 \<Rightarrow> session" where
  "processDeadPIDsEvent s p = s\<lparr>pids := (pids s)\<lparr>dead := List.insert p (dead (pids s))\<rparr>\<rparr>"

text \<open>
  \<open>UpdateTargets\<close>: the loop over \<open>unknown\<close>, then the method. A pid with a target leaves
  \<open>unknown\<close> whatever \<open>startProfilingLocked\<close> did with it.
\<close>

fun UpdateTargets_loop ::
  "'t env \<Rightarrow> u32 list \<Rightarrow> session \<Rightarrow> session \<times> 't effect list \<times> outcome" where
  "UpdateTargets_loop env [] s = (s, [], Ok)"
| "UpdateTargets_loop env (p # rest) s =
     (case FindTarget env p of
        None \<Rightarrow> UpdateTargets_loop env rest s
      | Some target \<Rightarrow>
          (case startProfilingLocked env s p target of
             (s1, eff, Ok) \<Rightarrow>
               let s2 = s1\<lparr>pids := (pids s1)\<lparr>unknown := removeAll p (unknown (pids s1))\<rparr>\<rparr>;
                   (s3, eff3, r) = UpdateTargets_loop env rest s2
               in (s3, eff @ eff3, r)
           | (s1, eff, r) \<Rightarrow> (s1, eff, r)))"

definition UpdateTargets :: "'t env \<Rightarrow> session \<Rightarrow> session \<times> 't effect list \<times> outcome" where
  "UpdateTargets env s =
     (let (s1, eff, r) = UpdateTargets_loop env (unknown (pids s)) s
      in (s1, TargetFinderUpdate # eff, r))"

definition Update :: "session \<Rightarrow> SessionOptions \<Rightarrow> session \<times> 't effect list \<times> outcome" where
  "Update s opts = (s\<lparr>options := opts\<rparr>, [SymCacheUpdateOptions], Ok)"

subsection \<open>The harvest\<close>

text \<open>\<open>comm\<close>: a missing key of \<open>all\<close> reads as the zero \<open>procInfoLite\<close>, whose comm is empty.\<close>

definition session_comm :: "session \<Rightarrow> u32 \<Rightarrow> string" where
  "session_comm s p =
     (let c = (case map_of (all (pids s)) p of None \<Rightarrow> [] | Some pi \<Rightarrow> comm pi)
      in if c \<noteq> [] then c else ''pid_unknown'')"

definition GetStack :: "'t env \<Rightarrow> i64 \<Rightarrow> byteSlice" where
  "GetStack env stackId =
     (if sint stackId < 0 then nilSlice
      else (case LookupBytes env (ucast stackId) of Inl err \<Rightarrow> nilSlice | Inr res \<Rightarrow> res))"

text \<open>
  \<open>collectMetrics\<close>: \<open>s.options.Metrics.Symtab\<close> dereferences \<open>Metrics\<close>, and the counter of
  unknown stacks is reached through \<open>m\<close> without the nil check.
\<close>

definition collectMetrics ::
  "session \<Rightarrow> 't \<Rightarrow> StackResolveStats \<Rightarrow> stackBuilder \<Rightarrow> 't effect list \<times> outcome" where
  "collectMetrics s labels stats sb =
     (case Metrics (options s) of
        None \<Rightarrow> ([], Panicked)
      | Some m \<Rightarrow>
          let eff = (if m then [SymtabMetricsAdd labels stats] else [])
          in if length sb > 2 \<and> unknownSymbols stats + unknownModules stats > known stats
             then (if m then (eff @ [UnknownStacksInc labels], Ok) else (eff, Panicked))
             else (eff, Ok))"

text \<open>
  The body of the loop of \<open>collectRegularProfile\<close> after \<open>knownStacks\<close> is updated, for
  the key \<open>ck\<close> and its value.
\<close>

definition collectRegularEntry ::
  "'t env \<Rightarrow> session \<Rightarrow> ProfileSampleKey \<Rightarrow> u32 \<Rightarrow> session \<times> 't effect list \<times> outcome" where
  "collectRegularEntry env s ck v =
     (case FindTarget env (Pid ck) of
        None \<Rightarrow> (s, [], Ok)
      | Some labels \<Rightarrow>
          if Pid ck \<in> set (dead (pids s)) then (s, [], Ok)
          else
            let proc = GetProcTable env (Pid ck) in
            if procError proc \<noteq> None
            then (s\<lparr>pids := (pids s)\<lparr>dead := List.insert (word_of_int (procPid proc)) (dead (pids s))\<rparr>\<rparr>,
                  [], Ok)
            else
              let uStack = (if CollectUser (options s) then GetStack env (UserStack ck)
                            else nilSlice);
                  kStack = (if CollectKernel (options s) then GetStack env (KernStack ck)
                            else nilSlice);
                  stats = \<lparr>known = 0, unknownSymbols = 0, unknownModules = 0\<rparr>;
                  sb = [session_comm s (Pid ck)];
                  user = (if CollectUser (options s)
                          then WalkStack (options s) sb uStack (procResolve proc) stats
                          else Inr (sb, stats))
              in (case user of
                    Inl Panic \<Rightarrow> (s, [], Panicked)
                  | Inr (sb1, stats1) \<Rightarrow>
                      (case (if CollectKernel (options s)
                             then WalkStack (options s) sb1 kStack (GetKallsyms env) stats1
                             else Inr (sb1, stats1)) of
                         Inl Panic \<Rightarrow> (s, [], Panicked)
                       | Inr (sb2, stats2) \<Rightarrow>
                           if length sb2 = 1 then (s, [], Ok)
                           else
                             let sb3 = rev sb2;
                                 (eff, r) = collectMetrics s labels stats2 sb3
                             in (s, Emit labels sb3 (ucast v) (Pid ck) SampleAggregated # eff, r))))"

text \<open>\<open>knownStacks\<close> after the key \<open>ck\<close>.\<close>

definition addKnownStacks :: "ProfileSampleKey \<Rightarrow> u32 list \<Rightarrow> u32 list" where
  "addKnownStacks ck knownStacks =
     (let k1 = (if 0 \<le> sint (UserStack ck) then List.insert (ucast (UserStack ck)) knownStacks
                else knownStacks)
      in if 0 \<le> sint (KernStack ck) then List.insert (ucast (KernStack ck)) k1 else k1)"

text \<open>
  The loop \<open>for i := range keys\<close>: the keys still to visit, the index \<open>i\<close> of the first of
  them; \<open>values[i]\<close> panics out of range.
\<close>

fun collectRegularLoop ::
  "'t env \<Rightarrow> ProfileSampleKey list \<Rightarrow> u32 list \<Rightarrow> nat \<Rightarrow> session \<Rightarrow> u32 list
     \<Rightarrow> session \<times> u32 list \<times> 't effect list \<times> outcome" where
  "collectRegularLoop env [] vs i s knownStacks = (s, knownStacks, [], Ok)"
| "collectRegularLoop env (ck # keys) vs i s knownStacks =
     (if length vs \<le> i then (s, knownStacks, [], Panicked)
      else
        let known1 = addKnownStacks ck knownStacks in
        (case collectRegularEntry env s ck (vs ! i) of
           (s1, eff, Ok) \<Rightarrow>
             let (s2, known2, eff2, r) = collectRegularLoop env keys vs (i + 1) s1 known1
             in (s2, known2, eff @ eff2, r)
         | (s1, eff, r) \<Rightarrow> (s1, known1, eff, r)))"

definition collectRegularProfile :: "'t env \<Rightarrow> session \<Rightarrow> session \<times> 't effect list \<times> outcome" where
  "collectRegularProfile env s =
     (case getCountsMapValues env of
        Inl err \<Rightarrow> (s, [GetCountsMapValues], Failed (Wrap ''get counts map'' err))
      | Inr (keys, vs, batch) \<Rightarrow>
          (case collectRegularLoop env keys vs 0 s [] of
             (s1, knownStacks, eff, Ok) \<Rightarrow>
               (case clearCountsMap env keys batch of
                  Some err \<Rightarrow>
                    (s1, GetCountsMapValues # eff @ [ClearCountsMap],
                     Failed (Wrap ''clear counts map'' err))
                | None \<Rightarrow>
                    (case clearStacksMap env knownStacks of
                       Some err \<Rightarrow>
                         (s1, GetCountsMapValues # eff @ [ClearCountsMap, ClearStacksMap knownStacks],
                          Failed (Wrap ''clear stacks map'' err))
                     | None \<Rightarrow>
                         (s1, GetCountsMapValues # eff @ [ClearCountsMap, ClearStacksMap knownStacks],
                          Ok)))
           | (s1, knownStacks, eff, r) \<Rightarrow> (s1, GetCountsMapValues # eff, r)))"

subsection \<open>Cleanup\<close>

text \<open>The first loop of \<open>cleanup\<close>, over the pids of \<open>dead\<close>.\<close>

fun cleanup_dead :: "u32 list \<Rightarrow> session \<Rightarrow> session \<times> 't effect list" where
  "cleanup_dead [] s = (s, [])"
| "cleanup_dead (p # rest) s =
     (let s1 = s\<lparr>pids := (pids s)\<lparr>dead := removeAll p (dead (pids s)),
                                     unknown := removeAll p (unknown (pids s)),
                                     all := AList.delete p (all (pids s))\<rparr>\<rparr>;
          eff = [SymCacheRemoveDeadPID p] @
                (case pyperf s of None \<Rightarrow> [] | Some h \<Rightarrow> [PyperfRemoveDeadPID p]) @
                [PidsDelete p, TargetFinderRemoveDeadPID p];
          (s2, eff2) = cleanup_dead rest s1
      in (s2, eff @ eff2))"

text \<open>The second loop of \<open>cleanup\<close>, over the pids of \<open>unknown\<close>.\<close>

fun cleanup_unknown :: "'t env \<Rightarrow> u32 list \<Rightarrow> session \<Rightarrow> session \<times> 't effect list" where
  "cleanup_unknown env [] s = (s, [])"
| "cleanup_unknown env (p # rest) s =
     (case Stat env p of
        None \<Rightarrow> cleanup_unknown env rest s
      | Some err \<Rightarrow>
          let s1 = s\<lparr>pids := (pids s)\<lparr>unknown := removeAll p (unknown (pids s)),
                                         all := AList.delete p (all (pids s))\<rparr>\<rparr>;
              (s2, eff2) = cleanup_unknown env rest s1
          in (s2, PidsDelete p # eff2))"

text \<open>\<open>checkStalePids\<close>: the keys that \<open>BatchLookup\<close> returned, each deleted when its stat fails.\<close>

definition checkStalePids :: "'t env \<Rightarrow> 't effect list" where
  "checkStalePids env = map PidsDelete (filter (\<lambda>k. StatStatus env k \<noteq> None) (PidsBatchLookup env))"

text \<open>\<open>cleanup\<close>. \<open>roundNumber%10 == 0\<close> holds exactly when ten divides the signed value.\<close>

definition cleanup :: "'t env \<Rightarrow> session \<Rightarrow> session \<times> 't effect list" where
  "cleanup env s =
     (let (s1, eff1) = cleanup_dead (dead (pids s)) s;
          (s2, eff2) = cleanup_unknown env (unknown (pids s1)) s1
      in (s2, SymCacheCleanup # eff1 @ eff2 @
              (if sint (roundNumber s2) mod 10 = 0 then checkStalePids env else [])))"

subsection \<open>CollectProfiles\<close>

text \<open>
  Modelled from the spec: \<open>collectPythonProfile\<close>, the python pass, is in a file of the
  package that is not among the sources. It invokes the harvest of the python unwinder, which
  produces callbacks \<open>(target, frames, value, pid, NotAggregated)\<close>, each event with value 1, and
  may return an error; the fields of the session modelled here are not its business. The
  error and the samples are answers of the environment.
\<close>

definition collectPythonProfile :: "'t env \<Rightarrow> session \<Rightarrow> session \<times> 't effect list \<times> outcome" where
  "collectPythonProfile env s =
     (s, map (\<lambda>(target, stack, p). Emit target stack 1 p SampleNotAggregated) (snd (pythonProfile env)),
      (case fst (pythonProfile env) of None \<Rightarrow> Ok | Some err \<Rightarrow> Failed err))"

definition CollectProfiles :: "'t env \<Rightarrow> session \<Rightarrow> session \<times> 't effect list \<times> outcome" where
  "CollectProfiles env s =
     (let s0 = s\<lparr>roundNumber := roundNumber s + 1\<rparr> in
      (case collectPythonProfile env s0 of
         (s1, eff1, Ok) \<Rightarrow>
           (case collectRegularProfile env s1 of
              (s2, eff2, Ok) \<Rightarrow>
                let (s3, eff3) = cleanup env s2
                in (s3, SymCacheNextRound # eff1 @ eff2 @ eff3, Ok)
            | (s2, eff2, r) \<Rightarrow> (s2, SymCacheNextRound # eff1 @ eff2, r))
       | (s1, eff1, r) \<Rightarrow> (s1, SymCacheNextRound # eff1, r)))"

subsection \<open>Stop\<close>

text \<open>The loop of \<open>stopLocked\<close> over \<open>kprobes\<close>: \<open>Close\<close> on a nil \<open>link.Link\<close> panics.\<close>

fun close_kprobes :: "nat option list \<Rightarrow> 't effect list \<times> outcome" where
  "close_kprobes [] = ([], Ok)"
| "close_kprobes (None # rest) = ([], Panicked)"
| "close_kprobes (Some kprobe # rest) =
     (let (eff, r) = close_kprobes rest in (CloseKprobe kprobe # eff, r))"

text \<open>
  The goroutines that return because \<open>stopLocked\<close> closes what they read: the ring reader and
  the three queues, each when it is not nil.
\<close>

definition closedInputs :: "session \<Rightarrow> goroutine list" where
  "closedInputs s =
     (case eventsReader s of None \<Rightarrow> [] | Some h \<Rightarrow> [ReadsEvents h]) @
     (case pidInfoRequests s of None \<Rightarrow> [] | Some c \<Rightarrow> [ReadsChan c]) @
     (case deadPIDEvents s of None \<Rightarrow> [] | Some c \<Rightarrow> [ReadsChan c]) @
     (case pidExecRequests s of None \<Rightarrow> [] | Some c \<Rightarrow> [ReadsChan c])"

text \<open>
  The statements of \<open>stopLocked\<close> after \<open>s.kprobes = nil\<close>. \<open>s.bpf.Close()\<close> and
  \<open>s.pyperf.Close()\<close> are calls into other packages: the trace records them, and they return.
  Neither \<open>s.bpf\<close> nor \<open>s.pyperf\<close> is assigned here. The goroutines whose input is closed
  here return and call \<open>Done\<close>; nothing but \<open>Wait\<close> reads the counter, so they leave \<open>wg\<close> at
  the close. Each goroutine is taken to be waiting for its input at that moment: a
  \<open>readEvents\<close> that is about to send to a queue is not modelled.
\<close>

definition stopLocked_rest :: "session \<Rightarrow> session \<times> 't effect list" where
  "stopLocked_rest s =
     (let eff1 = CloseBpf # (case pyperf s of None \<Rightarrow> [] | Some h \<Rightarrow> [ClosePyperf h]);
          eff2 = (case eventsReader s of None \<Rightarrow> [] | Some h \<Rightarrow> [CloseEventsReader h]);
          eff3 = (case pidInfoRequests s of None \<Rightarrow> [] | Some c \<Rightarrow> [CloseChan c]);
          eff4 = (case deadPIDEvents s of None \<Rightarrow> [] | Some c \<Rightarrow> [CloseChan c]);
          eff5 = (case pidExecRequests s of None \<Rightarrow> [] | Some c \<Rightarrow> [CloseChan c])
      in (s\<lparr>eventsReader := None, pidInfoRequests := None, deadPIDEvents := None,
            pidExecRequests := None, started := False,
            wg := filter (\<lambda>g. g \<notin> set (closedInputs s)) (wg s)\<rparr>,
          eff1 @ eff2 @ eff3 @ eff4 @ eff5))"

definition stopLocked :: "session \<Rightarrow> session \<times> 't effect list \<times> outcome" where
  "stopLocked s =
     (let eff0 = map ClosePerfEvent (perfEvents s);
          s1 = s\<lparr>perfEvents := []\<rparr>
      in (case close_kprobes (kprobes s1) of
            (effk, Ok) \<Rightarrow>
              let (s2, eff) = stopLocked_rest (s1\<lparr>kprobes := []\<rparr>)
              in (s2, eff0 @ effk @ eff, Ok)
          | (effk, r) \<Rightarrow> (s1, eff0 @ effk, r)))"

text \<open>
  \<open>stopAndWait\<close>: \<open>s.mutex.Lock()\<close>, \<open>s.stopLocked()\<close>, \<open>s.mutex.Unlock()\<close>, \<open>s.wg.Wait()\<close>.
  \<open>Lock\<close> on a held mutex blocks. The \<open>Unlock\<close> is not deferred: a panic of \<open>stopLocked\<close> leaves
  the mutex held. \<open>Wait\<close> blocks while a goroutine of \<open>wg\<close> remains, one whose input no
  \<open>stopLocked\<close> has closed.
\<close>

definition stopAndWait :: "session \<Rightarrow> session \<times> 't effect list \<times> outcome" where
  "stopAndWait s =
     (if mutex s then (s, [], Blocked)
      else
        (case stopLocked (s\<lparr>mutex := True\<rparr>) of
           (s1, eff, Ok) \<Rightarrow>
             let s2 = s1\<lparr>mutex := False\<rparr>
             in (s2, eff, if wg s2 = [] then Ok else Blocked)
         | (s1, eff, r) \<Rightarrow> (s1, eff, r)))"

definition Stop :: "session \<Rightarrow> session \<times> 't effect list \<times> outcome" where
  "Stop s = stopAndWait s"

subsection \<open>Start\<close>

text \<open>
  The answers of the kernel and of the packages \<open>rlimit\<close>, \<open>pyrobpf\<close>, \<open>perf\<close>, \<open>cpuonline\<close>
  and \<open>link\<close> during \<open>Start\<close>; \<open>newChans\<close> are the three channels that \<open>make\<close> returns.
\<close>

record startEnv =
  RemoveMemlock :: "error option"
  LoadProfileObjects :: "error option"
  NewReader :: "error + nat"
  cpuonlineGet :: "error + nat list"
  newPerfEvent :: "nat \<Rightarrow> int \<Rightarrow> error + nat"
  attachPerfEvent :: "nat \<Rightarrow> error option"
  Kprobe :: "string \<Rightarrow> error + nat"
  GOARCH :: string
  newChans :: "nat \<times> nat \<times> nat"

fun attachPerfEvents_loop :: "startEnv \<Rightarrow> int \<Rightarrow> nat list \<Rightarrow> nat list \<Rightarrow> nat list \<times> error option" where
  "attachPerfEvents_loop senv sampleRate [] perfEvents1 = (perfEvents1, None)"
| "attachPerfEvents_loop senv sampleRate (cpu # cpus) perfEvents1 =
     (case newPerfEvent senv cpu sampleRate of
        Inl err \<Rightarrow> (perfEvents1, Some (Wrap ''new perf event'' err))
      | Inr pe \<Rightarrow>
          (case attachPerfEvent senv pe of
             Some err \<Rightarrow> (perfEvents1 @ [pe], Some (Wrap ''attach perf event'' err))
           | None \<Rightarrow> attachPerfEvents_loop senv sampleRate cpus (perfEvents1 @ [pe])))"

definition attachPerfEvents :: "startEnv \<Rightarrow> int \<Rightarrow> nat list \<times> error option" where
  "attachPerfEvents senv sampleRate =
     (case cpuonlineGet senv of
        Inl err \<Rightarrow> ([], Some (Wrap ''get cpuonline'' err))
      | Inr cpus \<Rightarrow> attachPerfEvents_loop senv sampleRate cpus [])"

text \<open>
  The loop of \<open>linkKProbes\<close> over the hooks (name, required): a hook that is not required
  and fails is appended all the same, as the nil link that \<open>link.Kprobe\<close> returned.
\<close>

fun linkKProbes_loop :: "startEnv \<Rightarrow> (string \<times> bool) list \<Rightarrow> session \<Rightarrow> session \<times> error option" where
  "linkKProbes_loop senv [] s = (s, None)"
| "linkKProbes_loop senv ((kprobe, required) # hooks) s =
     (case Kprobe senv kprobe of
        Inl err \<Rightarrow>
          if required then (s, Some (Wrap (''link kprobe '' @ kprobe) err))
          else linkKProbes_loop senv hooks (s\<lparr>kprobes := kprobes s @ [None]\<rparr>)
      | Inr kp \<Rightarrow> linkKProbes_loop senv hooks (s\<lparr>kprobes := kprobes s @ [Some kp]\<rparr>))"

definition linkKProbes :: "startEnv \<Rightarrow> session \<Rightarrow> session \<times> error option" where
  "linkKProbes senv s =
     (let archSys = (if ''amd64'' = GOARCH senv then ''__x64_'' else ''__arm64_'')
      in linkKProbes_loop senv
           [(''disassociate_ctty'', True), (archSys @ ''sys_execve'', False),
            (archSys @ ''sys_execveat'', False)] s)"

text \<open>A failed step of \<open>Start\<close>: \<open>s.stopLocked()\<close>, then the wrapped error.\<close>

definition Start_fail :: "session \<Rightarrow> 't effect list \<Rightarrow> error \<Rightarrow> session \<times> 't effect list \<times> outcome" where
  "Start_fail s eff err =
     (case stopLocked s of
        (s1, eff1, Ok) \<Rightarrow> (s1, eff @ eff1, Failed err)
      | (s1, eff1, r) \<Rightarrow> (s1, eff @ eff1, r))"

definition session_Start :: "startEnv \<Rightarrow> session \<Rightarrow> session \<times> 't effect list \<times> outcome" where
  "session_Start senv s =
     (case RemoveMemlock senv of
        Some err \<Rightarrow> (s, [], Failed err)
      | None \<Rightarrow>
          (case LoadProfileObjects senv of
             Some err \<Rightarrow> Start_fail s [] (Wrap ''load bpf objects'' err)
           | None \<Rightarrow>
               (case NewReader senv of
                  Inl err \<Rightarrow> Start_fail s [FlushKernelSpec] (Wrap ''perf new reader for events map'' err)
                | Inr reader \<Rightarrow>
                    (case attachPerfEvents senv (SampleRate (options s)) of
                       (pes, Some err) \<Rightarrow>
                         Start_fail (s\<lparr>perfEvents := pes\<rparr>) [FlushKernelSpec]
                           (Wrap ''attach perf events'' err)
                     | (pes, None) \<Rightarrow>
                         (case linkKProbes senv (s\<lparr>perfEvents := pes\<rparr>) of
                            (s1, Some err) \<Rightarrow> Start_fail s1 [FlushKernelSpec] (Wrap ''link kprobes'' err)
                          | (s1, None) \<Rightarrow>
                              (case newChans senv of
                                 (info, exec, deadc) \<Rightarrow>
                                   (s1\<lparr>eventsReader := Some reader, pidInfoRequests := Some info,
                                       pidExecRequests := Some exec, deadPIDEvents := Some deadc,
                                       wg := wg s1 @ [ReadsEvents reader, ReadsChan info,
                                                      ReadsChan deadc, ReadsChan exec],
                                       started := True\<rparr>,
                                    [FlushKernelSpec, Go ''readEvents'', Go ''processPidInfoRequests'',
                                     Go ''processDeadPIDsEvents'', Go ''processPIDExecRequests''],
                                    Ok)))))))"

text \<open>
  \<open>NewSession\<close>: its argument \<open>sessionOptions.Metrics.Symtab\<close> dereferences \<open>Metrics\<close>;
  \<open>symCacheError\<close> is the error of \<open>symtab.NewSymbolCache\<close>. The three maps start empty.
\<close>

definition NewSession :: "error option \<Rightarrow> SessionOptions \<Rightarrow> panic + error + session" where
  "NewSession symCacheError sessionOptions =
     (case Metrics sessionOptions of
        None \<Rightarrow> Inl Panic
      | Some m \<Rightarrow>
          (case symCacheError of
             Some err \<Rightarrow> Inr (Inl err)
           | None \<Rightarrow>
               Inr (Inr \<lparr>options = sessionOptions, roundNumber = 0, mutex = False, wg = [],
                         started = False,
                         perfEvents = [], kprobes = [], eventsReader = None,
                         pidInfoRequests = None, deadPIDEvents = None, pidExecRequests = None,
                         pyperf = None, pids = \<lparr>unknown = [], dead = [], all = []\<rparr>\<rparr>)))"

section \<open>Vocabulary of the properties and example inputs\<close>

subsection \<open>For the stack walker\<close>

text \<open>
  The kernel writes a stack as 64-bit little-endian instruction pointers, leaf first:
  \<open>pointerAt stack i\<close> is the pointer of frame \<open>i\<close> in the bytes \<open>stack\<close>, \<open>frameName\<close> the name
  \<open>WalkStack\<close> gives a pointer, and \<open>firstZero\<close> the index of the first zero pointer among
  frames 0..126 (127 when there is none).
\<close>

definition pointerAt :: "byte list \<Rightarrow> nat \<Rightarrow> u64" where
  "pointerAt stack i = Uint64 (take 8 (drop (i * 8) stack))"

definition frameName :: "SessionOptions \<Rightarrow> SymbolTable \<Rightarrow> u64 \<Rightarrow> string" where
  "frameName opts resolver ip =
     fst (resolveFrame opts resolver ip \<lparr>known = 0, unknownSymbols = 0, unknownModules = 0\<rparr>)"

definition firstZero :: "byte list \<Rightarrow> nat" where
  "firstZero stack = length (takeWhile (\<lambda>j. pointerAt stack j \<noteq> 0) [0..<127])"

text \<open>
  The inputs at which the theorems below are instantiated. \<open>stack0\<close> are 127 frames with two
  callers, \<open>slice0\<close> the slice of them that \<open>LookupBytes\<close> returns, with no spare capacity, and
  \<open>resolver0\<close> knows both callers. \<open>shortStack\<close> is one frame: \<open>shortSlice\<close> holds it with no spare
  capacity, \<open>spareSlice\<close> is \<open>make([]byte, 8, 16)\<close> with that frame written to it, and
  \<open>endedSlice\<close> has length 16, the frame and a zero pointer.
\<close>

definition stack0 :: "byte list" where
  "stack0 = [1, 0, 0, 0, 0, 0, 0, 0] @ [2, 0, 0, 0, 0, 0, 0, 0] @ replicate 1000 0"

definition slice0 :: byteSlice where
  "slice0 = \<lparr>bytes = stack0, spare = []\<rparr>"

definition resolver0 :: SymbolTable where
  "resolver0 ip = \<lparr>Start = 0, Name = (if ip = 1 then ''leaf'' else ''root''), Module = []\<rparr>"

definition options0 :: SessionOptions where
  "options0 = \<lparr>CollectUser = True, CollectKernel = False, UnknownSymbolModuleOffset = False,
     UnknownSymbolAddress = False, PythonEnabled = False, Metrics = Some True, SampleRate = 97\<rparr>"

definition stats0 :: StackResolveStats where
  "stats0 = \<lparr>known = 0, unknownSymbols = 0, unknownModules = 0\<rparr>"

definition shortStack :: "byte list" where
  "shortStack = [1, 0, 0, 0, 0, 0, 0, 0]"

definition shortSlice :: byteSlice where
  "shortSlice = \<lparr>bytes = shortStack, spare = []\<rparr>"

definition spareSlice :: byteSlice where
  "spareSlice = \<lparr>bytes = shortStack, spare = replicate 8 0\<rparr>"

definition endedSlice :: byteSlice where
  "endedSlice = \<lparr>bytes = shortStack @ replicate 8 0, spare = []\<rparr>"

subsection \<open>For the classifier\<close>

text \<open>
  A session and an environment at which the theorems below are instantiated: pid 100 is
  profiled and known as \<open>nginx\<close>, pid 200 is dead, the kernel map \<open>Counts\<close> holds one key for
  each of them, every stack is \<open>slice0\<close>, and every pid runs \<open>/usr/sbin/uwsgi\<close>. In
  \<open>envEmptyComm\<close> the read of comm returns no byte, in \<open>envBareComm\<close> no trailing newline.
\<close>

definition env0 :: "unit env" where
  "env0 =
     \<lparr>FindTarget = (\<lambda>p. Some ()),
      GetProcTable = (\<lambda>p. \<lparr>procPid = uint p, procError = None, procResolve = resolver0\<rparr>),
      GetKallsyms = resolver0,
      LookupBytes = (\<lambda>stackId. Inr slice0),
      getCountsMapValues =
        Inr ([\<lparr>Pid = 100, KernStack = - 1, UserStack = 7\<rparr>,
              \<lparr>Pid = 200, KernStack = - 1, UserStack = 7\<rparr>], [3, 5], False),
      clearCountsMap = (\<lambda>keys batch. None),
      clearStacksMap = (\<lambda>knownStacks. None),
      pythonProfile = (None, []),
      Readlink = (\<lambda>p. Inr ''/usr/sbin/uwsgi''),
      ReadFile = (\<lambda>p. Inr (''uwsgi'' @ [CHR 0x0A])),
      Stat = (\<lambda>p. None),
      StatStatus = (\<lambda>p. None),
      PidsBatchLookup = []\<rparr>"

definition envEmptyComm :: "unit env" where
  "envEmptyComm = env0\<lparr>ReadFile := (\<lambda>p. Inr [])\<rparr>"

definition envBareComm :: "unit env" where
  "envBareComm = env0\<lparr>ReadFile := (\<lambda>p. Inr ''uwsgi'')\<rparr>"

definition newSession0 :: session where
  "newSession0 =
     \<lparr>options = options0, roundNumber = 0, mutex = False, wg = [], started = False,
      perfEvents = [], kprobes = [],
      eventsReader = None, pidInfoRequests = None, deadPIDEvents = None, pidExecRequests = None,
      pyperf = None, pids = \<lparr>unknown = [], dead = [], all = []\<rparr>\<rparr>"

definition session0 :: session where
  "session0 =
     newSession0
       \<lparr>started := True,
        pids := \<lparr>unknown = [], dead = [200],
                 all = [(100, \<lparr>pid = 100, comm = ''nginx'', exe = [],
                                typ' = ProfilingTypeFramepointers\<rparr>)]\<rparr>\<rparr>"

subsection \<open>For the harvest\<close>

text \<open>
  \<open>samplesOf\<close> are the calls of the callback in a trace and \<open>emittedPids\<close> their pids;
  \<open>deadGrown s s1\<close> says that \<open>s1\<close> is \<open>s\<close> but for a larger \<open>dead\<close>.
\<close>

definition samplesOf :: "'t effect list \<Rightarrow> ('t \<times> string list \<times> u64 \<times> u32 \<times> bool) list" where
  "samplesOf eff =
     concat (map (\<lambda>e. case e of Emit target stack v p aggregation \<Rightarrow> [(target, stack, v, p, aggregation)]
                          | _ \<Rightarrow> []) eff)"

definition emittedPids :: "'t effect list \<Rightarrow> u32 list" where
  "emittedPids eff = map (\<lambda>(target, stack, v, p, aggregation). p) (samplesOf eff)"

definition deadGrown :: "session \<Rightarrow> session \<Rightarrow> bool" where
  "deadGrown s s1 \<longleftrightarrow>
     (\<exists>ds. s1 = s\<lparr>pids := (pids s)\<lparr>dead := ds\<rparr>\<rparr> \<and> set (dead (pids s)) \<subseteq> set ds)"

subsection \<open>For CollectProfiles\<close>

text \<open>
  \<open>cleanupEffect\<close> holds of the calls that only \<open>cleanup\<close> makes. \<open>harvestDead env s\<close> is the
  set \<open>dead\<close> when the regular pass of \<open>CollectProfiles env s\<close> ends: the pids that were dead
  before the call and those the pass marked. In \<open>envPythonError\<close> the python pass fails after
  one sample; in \<open>envDrainError\<close>, \<open>envClearCountsError\<close> and \<open>envClearStacksError\<close> the drain of
  \<open>Counts\<close>, its clearing and the clearing of \<open>Stacks\<close> fail; in \<open>envProcError\<close> the symbol cache
  reports an error for pid 100; in \<open>session1\<close> the pids 200 and 300 are in \<open>unknown\<close>.
\<close>

fun cleanupEffect :: "'t effect \<Rightarrow> bool" where
  "cleanupEffect SymCacheCleanup = True"
| "cleanupEffect (SymCacheRemoveDeadPID p) = True"
| "cleanupEffect (PyperfRemoveDeadPID p) = True"
| "cleanupEffect (TargetFinderRemoveDeadPID p) = True"
| "cleanupEffect (PidsDelete p) = True"
| "cleanupEffect e = False"

definition harvestDead :: "'t env \<Rightarrow> session \<Rightarrow> u32 list" where
  "harvestDead env s =
     dead (pids (fst (collectRegularProfile env
       (fst (collectPythonProfile env (s\<lparr>roundNumber := roundNumber s + 1\<rparr>))))))"

definition envPythonError :: "unit env" where
  "envPythonError = env0\<lparr>pythonProfile := (Some (Err ''pyperf''), [((), [''f'', ''python3''], 300)])\<rparr>"

definition envProcError :: "unit env" where
  "envProcError =
     env0\<lparr>GetProcTable :=
            (\<lambda>p. \<lparr>procPid = uint p,
                  procError = (if p = 100 then Some (Err ''no such process'') else None),
                  procResolve = resolver0\<rparr>)\<rparr>"

definition envDrainError :: "unit env" where
  "envDrainError = env0\<lparr>getCountsMapValues := Inl (Err ''lookup batch'')\<rparr>"

definition envClearCountsError :: "unit env" where
  "envClearCountsError = env0\<lparr>clearCountsMap := (\<lambda>keys batch. Some (Err ''delete batch''))\<rparr>"

definition envClearStacksError :: "unit env" where
  "envClearStacksError = env0\<lparr>clearStacksMap := (\<lambda>knownStacks. Some (Err ''delete stack''))\<rparr>"

definition session1 :: session where
  "session1 = session0\<lparr>pids := (pids session0)\<lparr>unknown := [200, 300]\<rparr>\<rparr>"

subsection \<open>For Stop\<close>

text \<open>
  \<open>sessionUp\<close> is a started session with two perf events, three kprobes, the ring reader,
  the three queues and the four goroutines that read them; \<open>sessionDown\<close> is what \<open>Stop\<close>
  makes of it. \<open>sessionUpPy\<close> and \<open>sessionDownPy\<close> are the same with a python unwinder.
  \<open>sessionStale\<close> is \<open>sessionUp\<close> with one more goroutine, which reads a queue that the session
  no longer holds.
\<close>

definition sessionUp :: session where
  "sessionUp =
     session0\<lparr>perfEvents := [1, 2], kprobes := [Some 3, Some 4, Some 5], eventsReader := Some 6,
              pidInfoRequests := Some 7, deadPIDEvents := Some 8, pidExecRequests := Some 9,
              wg := [ReadsEvents 6, ReadsChan 7, ReadsChan 8, ReadsChan 9]\<rparr>"

definition sessionDown :: session where
  "sessionDown =
     session0\<lparr>perfEvents := [], kprobes := [], eventsReader := None,
              pidInfoRequests := None, deadPIDEvents := None, pidExecRequests := None,
              started := False\<rparr>"

definition sessionUpPy :: session where
  "sessionUpPy = sessionUp\<lparr>pyperf := Some 10\<rparr>"

definition sessionDownPy :: session where
  "sessionDownPy = sessionDown\<lparr>pyperf := Some 10\<rparr>"

definition sessionStale :: session where
  "sessionStale = sessionUp\<lparr>wg := ReadsChan 11 # wg sessionUp\<rparr>"

subsection \<open>For the pid table\<close>

text \<open>
  The public operations and the handlers of the three queues, as one step on the session:
  \<open>sessionStep\<close> is the session after the operation, whatever it returned. \<open>unknownInAll\<close>
  is the invariant \<open>unknown \<subseteq> all\<close>. \<open>savesUnknown\<close> holds when the operation is an info or
  exec request for a pid that has no target, is not dead and is not a key of \<open>all\<close>: the
  requests that reach \<open>saveUnknownPIDLocked\<close> with a pid outside \<open>all\<close>. The goroutine
  \<open>tryStartPythonProfiling\<close>, which is not among the sources, is not one of the steps.
  In \<open>senv0\<close> every step of \<open>Start\<close> succeeds; in \<open>envNoTarget\<close> no pid has a target; in
  \<open>sessionKnown\<close> the pid 100 is in \<open>unknown\<close> and in \<open>all\<close>.
\<close>

datatype operation =
    OpStart
  | OpStop
  | OpUpdate SessionOptions
  | OpUpdateTargets
  | OpCollectProfiles
  | PidInfoRequest u32
  | PidExecRequest u32
  | PidDeadEvent u32

definition sessionStep :: "startEnv \<Rightarrow> 't env \<Rightarrow> operation \<Rightarrow> session \<Rightarrow> session" where
  "sessionStep senv env operation s =
     (case operation of
        OpStart \<Rightarrow> fst (session_Start senv s :: session \<times> 't effect list \<times> outcome)
      | OpStop \<Rightarrow> fst (Stop s :: session \<times> 't effect list \<times> outcome)
      | OpUpdate opts \<Rightarrow> fst (Update s opts :: session \<times> 't effect list \<times> outcome)
      | OpUpdateTargets \<Rightarrow> fst (UpdateTargets env s)
      | OpCollectProfiles \<Rightarrow> fst (CollectProfiles env s)
      | PidInfoRequest p \<Rightarrow> fst (processPidInfoRequest env s p)
      | PidExecRequest p \<Rightarrow> fst (processPIDExecRequest env s p)
      | PidDeadEvent p \<Rightarrow> processDeadPIDsEvent s p)"

definition unknownInAll :: "session \<Rightarrow> bool" where
  "unknownInAll s \<longleftrightarrow> set (unknown (pids s)) \<subseteq> fst ` set (all (pids s))"

definition savesUnknown :: "'t env \<Rightarrow> operation \<Rightarrow> session \<Rightarrow> bool" where
  "savesUnknown env operation s \<longleftrightarrow>
     (case operation of
        PidInfoRequest p \<Rightarrow>
          FindTarget env p = None \<and> p \<notin> set (dead (pids s)) \<and> p \<notin> fst ` set (all (pids s))
      | PidExecRequest p \<Rightarrow>
          FindTarget env p = None \<and> p \<notin> set (dead (pids s)) \<and> p \<notin> fst ` set (all (pids s))
      | _ \<Rightarrow> False)"

definition senv0 :: startEnv where
  "senv0 =
     \<lparr>RemoveMemlock = None, LoadProfileObjects = None, NewReader = Inr 6,
      cpuonlineGet = Inr [0, 1], newPerfEvent = (\<lambda>cpu sampleRate. Inr (cpu + 1)),
      attachPerfEvent = (\<lambda>pe. None), Kprobe = (\<lambda>kprobe. Inr (length kprobe)),
      GOARCH = ''amd64'', newChans = (7, 9, 8)\<rparr>"

definition envNoTarget :: "unit env" where
  "envNoTarget = env0\<lparr>FindTarget := (\<lambda>p. None)\<rparr>"

definition sessionKnown :: session where
  "sessionKnown = session0\<lparr>pids := (pids session0)\<lparr>unknown := [100]\<rparr>\<rparr>"

section \<open>Properties of the stack walker\<close>

subsection \<open>The loop\<close>

lemma panic_eq [simp]: "(x::panic) = Panic"
  by (cases x) simp

lemma fst_resolveFrame: "fst (resolveFrame opts r ip st) = frameName opts r ip"
  by (simp add: resolveFrame_def frameName_def Let_def)

lemma reslice_frame:
  "reslice stack (i * 8) (i * 8 + 8) =
     (if length (backing stack) < i * 8 + 8 then Inl Panic
      else Inr (take 8 (drop (i * 8) (backing stack))))"
  by (simp add: reslice_def)

lemma WalkStack_loop_unfold:
  "WalkStack_loop opts stack r i fr st =
     (if i < 127 then
        (if length (backing stack) < i * 8 + 8 then Inl Panic
         else if pointerAt (backing stack) i = 0 then Inr (fr, st)
         else WalkStack_loop opts stack r (i + 1)
                (fr @ [frameName opts r (pointerAt (backing stack) i)])
                (snd (resolveFrame opts r (pointerAt (backing stack) i) st)))
      else Inr (fr, st))"
  by (subst WalkStack_loop.simps)
    (simp add: reslice_frame pointerAt_def Let_def case_prod_beta fst_resolveFrame)

lemma WalkStack_loop_frames:
  "127 * 8 \<le> length (backing stack) \<Longrightarrow>
   \<exists>st'. WalkStack_loop opts stack r i fr st =
      Inr (fr @ map (\<lambda>j. frameName opts r (pointerAt (backing stack) j))
                  (takeWhile (\<lambda>j. pointerAt (backing stack) j \<noteq> 0) [i..<127]), st')"
proof (induction "127 - i" arbitrary: i fr st)
  case 0
  then show ?case by (subst WalkStack_loop_unfold) simp
next
  case (Suc n)
  then have lt: "i < 127" and n: "n = 127 - (i + 1)" by simp_all
  have inb: "\<not> length (backing stack) < i * 8 + 8" using lt Suc.prems by simp
  have upt: "[i..<127] = i # [Suc i..<127]" using lt by (simp add: upt_conv_Cons)
  show ?case
  proof (cases "pointerAt (backing stack) i = 0")
    case True
    then show ?thesis using lt inb by (subst WalkStack_loop_unfold) (simp add: upt)
  next
    case False
    from Suc.hyps(1)[OF n Suc.prems]
    obtain st' where "WalkStack_loop opts stack r (i + 1)
        (fr @ [frameName opts r (pointerAt (backing stack) i)])
        (snd (resolveFrame opts r (pointerAt (backing stack) i) st)) =
        Inr ((fr @ [frameName opts r (pointerAt (backing stack) i)]) @
             map (\<lambda>j. frameName opts r (pointerAt (backing stack) j))
               (takeWhile (\<lambda>j. pointerAt (backing stack) j \<noteq> 0) [i + 1..<127]), st')"
      by blast
    then show ?thesis using lt inb False by (subst WalkStack_loop_unfold) (simp add: upt)
  qed
qed

lemma WalkStack_loop_panic:
  "i \<le> length (backing stack) div 8 \<Longrightarrow>
   WalkStack_loop opts stack r i fr st = Inl Panic \<longleftrightarrow>
     (length (backing stack) div 8 < 127 \<and>
      (\<forall>k. i \<le> k \<and> k < length (backing stack) div 8 \<longrightarrow> pointerAt (backing stack) k \<noteq> 0))"
proof (induction "127 - i" arbitrary: i fr st)
  case 0
  then show ?case by (subst WalkStack_loop_unfold) simp
next
  case (Suc m)
  let ?n = "length (backing stack) div 8"
  from Suc have lt: "i < 127" and m: "m = 127 - (i + 1)" by simp_all
  show ?case
  proof (cases "length (backing stack) < i * 8 + 8")
    case oob: True
    then have "i = ?n" using Suc.prems by simp
    then show ?thesis using lt oob by (subst WalkStack_loop_unfold) auto
  next
    case inb: False
    then have lti: "i < ?n" by simp
    show ?thesis
    proof (cases "pointerAt (backing stack) i = 0")
      case True
      then show ?thesis using lt inb lti by (subst WalkStack_loop_unfold) auto
    next
      case nz: False
      have le: "i + 1 \<le> ?n" using lti by simp
      have split: "(\<forall>k. i \<le> k \<and> k < ?n \<longrightarrow> pointerAt (backing stack) k \<noteq> 0) \<longleftrightarrow>
                   (\<forall>k. i + 1 \<le> k \<and> k < ?n \<longrightarrow> pointerAt (backing stack) k \<noteq> 0)"
        using nz by (metis Suc_eq_plus1 Suc_leI le_neq_implies_less add_leD1)
      show ?thesis
        using lt inb nz Suc.hyps(1)[OF m le] split
        by (subst WalkStack_loop_unfold) simp
    qed
  qed
qed

lemma pointerAt_backing:
  "j * 8 + 8 \<le> length (bytes stack) \<Longrightarrow> pointerAt (backing stack) j = pointerAt (bytes stack) j"
  by (simp add: pointerAt_def backing_def)

lemma WalkStack_loop_spare:
  assumes "127 * 8 \<le> length bs \<or> (\<exists>k. i \<le> k \<and> k * 8 + 8 \<le> length bs \<and> pointerAt bs k = 0)"
  shows "WalkStack_loop opts \<lparr>bytes = bs, spare = sp\<rparr> r i fr st =
         WalkStack_loop opts \<lparr>bytes = bs, spare = []\<rparr> r i fr st"
  using assms
proof (induction "127 - i" arbitrary: i fr st)
  case 0
  then show ?case
    by (subst WalkStack_loop_unfold, subst (2) WalkStack_loop_unfold) simp
next
  case (Suc m)
  from Suc have lt: "i < 127" and m: "m = 127 - (i + 1)" by simp_all
  have inb: "i * 8 + 8 \<le> length bs" using Suc.prems lt by auto
  have p: "pointerAt (backing \<lparr>bytes = bs, spare = sp\<rparr>) i = pointerAt bs i"
    "pointerAt (backing \<lparr>bytes = bs, spare = []\<rparr>) i = pointerAt bs i"
    using inb pointerAt_backing[of i "\<lparr>bytes = bs, spare = sp\<rparr>"]
      pointerAt_backing[of i "\<lparr>bytes = bs, spare = []\<rparr>"] by simp_all
  have len: "\<not> length (backing \<lparr>bytes = bs, spare = sp\<rparr>) < i * 8 + 8"
    "\<not> length (backing \<lparr>bytes = bs, spare = []\<rparr>) < i * 8 + 8"
    using inb by (simp_all add: backing_def)
  show ?case
  proof (cases "pointerAt bs i = 0")
    case True
    then show ?thesis using lt len p
      by (subst WalkStack_loop_unfold, subst (2) WalkStack_loop_unfold) simp
  next
    case False
    have "127 * 8 \<le> length bs \<or>
          (\<exists>k. i + 1 \<le> k \<and> k * 8 + 8 \<le> length bs \<and> pointerAt bs k = 0)"
      using Suc.prems False by (metis Suc_eq_plus1 Suc_leI le_neq_implies_less)
    from Suc.hyps(1)[OF m this] show ?thesis using lt len p False
      by (subst WalkStack_loop_unfold, subst (2) WalkStack_loop_unfold) simp
  qed
qed

lemma firstZero_le: "firstZero stack \<le> 127"
  unfolding firstZero_def using length_takeWhile_le[of _ "[0..<127]"] by (metis diff_zero length_upt)

lemma firstZero_nonzero: "j < firstZero stack \<Longrightarrow> pointerAt stack j \<noteq> 0"
proof -
  assume j: "j < firstZero stack"
  let ?P = "\<lambda>j. pointerAt stack j \<noteq> 0"
  have "takeWhile ?P [0..<127] ! j = [0..<127] ! j"
    using j unfolding firstZero_def by (rule takeWhile_nth)
  moreover have "j < 127" using j firstZero_le[of stack] by simp
  moreover have "takeWhile ?P [0..<127] ! j \<in> set (takeWhile ?P [0..<127])"
    using j unfolding firstZero_def by (rule nth_mem)
  ultimately show ?thesis using set_takeWhileD[of "j" ?P "[0..<127]"] by simp
qed

lemma firstZero_zero: "firstZero stack < 127 \<Longrightarrow> pointerAt stack (firstZero stack) = 0"
proof -
  assume k: "firstZero stack < 127"
  let ?P = "\<lambda>j. pointerAt stack j \<noteq> 0"
  have "\<not> ?P ([0..<127] ! length (takeWhile ?P [0..<127]))"
    by (rule nth_length_takeWhile) (use k in \<open>simp add: firstZero_def\<close>)
  then show ?thesis using k by (simp add: firstZero_def)
qed

lemma takeWhile_upt_firstZero:
  "takeWhile (\<lambda>j. pointerAt stack j \<noteq> 0) [0..<127] = [0..<firstZero stack]"
proof -
  let ?P = "\<lambda>j. pointerAt stack j \<noteq> 0"
  have "takeWhile ?P [0..<127] = take (firstZero stack) [0..<127]"
    unfolding firstZero_def by (rule takeWhile_eq_take)
  then show ?thesis using firstZero_le[of stack] by simp
qed

lemma firstZero_unique:
  assumes "k \<le> 127" and "\<And>j. j < k \<Longrightarrow> pointerAt stack j \<noteq> 0"
    and "k < 127 \<Longrightarrow> pointerAt stack k = 0"
  shows "firstZero stack = k"
proof (rule antisym)
  show "firstZero stack \<le> k"
  proof (rule ccontr)
    assume "\<not> firstZero stack \<le> k"
    then have "k < firstZero stack" by simp
    then show False
      using firstZero_nonzero[of k stack] assms(3) firstZero_le[of stack] by simp
  qed
  show "k \<le> firstZero stack"
  proof (rule ccontr)
    assume "\<not> k \<le> firstZero stack"
    then have lt: "firstZero stack < k" by simp
    then show False
      using firstZero_zero[of stack] assms(1) assms(2)[of "firstZero stack"] by simp
  qed
qed

lemma WalkStack_full:
  assumes "length (bytes stack) = 127 * 8"
  shows "\<exists>stats'. WalkStack opts sb stack resolver stats =
            Inr (sb @ rev (map (\<lambda>j. frameName opts resolver (pointerAt (bytes stack) j))
                            [0..<firstZero (bytes stack)]), stats')"
proof -
  have le: "127 * 8 \<le> length (backing stack)" using assms by (simp add: backing_def)
  have eq: "\<And>j. j \<in> set [0..<127] \<Longrightarrow>
      pointerAt (backing stack) j = pointerAt (bytes stack) j"
    using assms by (intro pointerAt_backing) simp
  have tw: "takeWhile (\<lambda>j. pointerAt (backing stack) j \<noteq> 0) [0..<127] =
            takeWhile (\<lambda>j. pointerAt (bytes stack) j \<noteq> 0) [0..<127]"
    by (rule takeWhile_cong) (simp_all add: eq)
  have mp: "map (\<lambda>j. frameName opts resolver (pointerAt (backing stack) j))
              [0..<firstZero (bytes stack)] =
            map (\<lambda>j. frameName opts resolver (pointerAt (bytes stack) j))
              [0..<firstZero (bytes stack)]"
    using firstZero_le[of "bytes stack"] by (intro map_cong refl) (simp add: eq)
  obtain st' where "WalkStack_loop opts stack resolver 0 [] stats =
      Inr ([] @ map (\<lambda>j. frameName opts resolver (pointerAt (backing stack) j))
                  (takeWhile (\<lambda>j. pointerAt (backing stack) j \<noteq> 0) [0..<127]), st')"
    using WalkStack_loop_frames[OF le, of opts resolver 0 "[]" stats] by blast
  then have "WalkStack opts sb stack resolver stats =
      Inr (sb @ rev (map (\<lambda>j. frameName opts resolver (pointerAt (bytes stack) j))
                            [0..<firstZero (bytes stack)]), st')"
    using assms by (simp add: WalkStack_def tw takeWhile_upt_firstZero mp del: take_upt)
  then show ?thesis by blast
qed

lemma WalkStack_panic:
  "WalkStack opts sb stack resolver stats = Inl Panic \<longleftrightarrow>
     bytes stack \<noteq> [] \<and> length (backing stack) < 127 * 8 \<and>
     (\<forall>k < length (backing stack) div 8. pointerAt (backing stack) k \<noteq> 0)"
proof (cases "bytes stack = []")
  case True
  then show ?thesis by (simp add: WalkStack_def)
next
  case False
  have "WalkStack opts sb stack resolver stats = Inl Panic \<longleftrightarrow>
        WalkStack_loop opts stack resolver 0 [] stats = Inl Panic"
    using False by (auto simp: WalkStack_def split: sum.splits)
  also have "\<dots> \<longleftrightarrow> (length (backing stack) div 8 < 127 \<and>
      (\<forall>k. 0 \<le> k \<and> k < length (backing stack) div 8 \<longrightarrow> pointerAt (backing stack) k \<noteq> 0))"
    by (rule WalkStack_loop_panic) simp
  also have "length (backing stack) div 8 < 127 \<longleftrightarrow> length (backing stack) < 127 * 8" by auto
  finally show ?thesis using False by simp
qed

lemma pointerAt_stack0_0: "pointerAt stack0 0 = 1"
  by (simp add: pointerAt_def stack0_def Uint64_def)

lemma pointerAt_stack0_1: "pointerAt stack0 1 = 2"
  by (simp add: pointerAt_def stack0_def Uint64_def)

lemma pointerAt_stack0_2: "pointerAt stack0 2 = 0"
  by (simp add: pointerAt_def stack0_def Uint64_def)

lemma firstZero_stack0: "firstZero stack0 = 2"
proof (rule firstZero_unique)
  fix j :: nat assume "j < 2"
  then have "j = 0 \<or> j = Suc 0" by auto
  then show "pointerAt stack0 j \<noteq> 0" using pointerAt_stack0_0 pointerAt_stack0_1 by auto
qed (simp_all add: pointerAt_stack0_2)

lemma pointerAt_shortStack_0: "pointerAt shortStack 0 = 1"
  by (simp add: pointerAt_def shortStack_def Uint64_def)

lemma pointerAt_ended_1: "pointerAt (shortStack @ replicate 8 0) 1 = 0"
  by (simp add: pointerAt_def shortStack_def Uint64_def)

lemma WalkStack_slice0:
  "WalkStack options0 sb slice0 resolver0 st =
     Inr (sb @ [''root'', ''leaf''], st\<lparr>known := known st + 2\<rparr>)"
proof -
  have len: "length stack0 = 1016" by (simp add: stack0_def)
  have b: "backing slice0 = stack0" by (simp add: backing_def slice0_def)
  have p: "pointerAt stack0 0 = 1" "pointerAt stack0 (Suc 0) = 2" "pointerAt stack0 (Suc (Suc 0)) = 0"
    using pointerAt_stack0_0 pointerAt_stack0_1 pointerAt_stack0_2
    by (simp_all add: numeral_2_eq_2)
  have "WalkStack_loop options0 slice0 resolver0 0 [] st =
        Inr ([''leaf'', ''root''], st\<lparr>known := known st + 2\<rparr>)"
    by (simp add: b len p WalkStack_loop_unfold[of _ _ _ 0]
        WalkStack_loop_unfold[of _ _ _ "Suc 0"] WalkStack_loop_unfold[of _ _ _ "Suc (Suc 0)"]
        frameName_def resolveFrame_def resolver0_def Let_def add.commute)
  then show ?thesis by (simp add: WalkStack_def slice0_def len)
qed

lemma WalkStack_spareSlice:
  "WalkStack options0 sb spareSlice resolver0 st =
     Inr (sb @ [''leaf''], st\<lparr>known := known st + 1\<rparr>)"
proof -
  have b: "backing spareSlice = shortStack @ replicate 8 0"
    by (simp add: backing_def spareSlice_def)
  have len: "length (shortStack @ replicate 8 0) = 16" "length shortStack = 8"
    by (simp_all add: shortStack_def)
  have p: "pointerAt (shortStack @ replicate 8 0) 0 = 1"
    "pointerAt (shortStack @ replicate 8 0) (Suc 0) = 0"
    using pointerAt_ended_1 by (simp_all add: pointerAt_def shortStack_def Uint64_def)
  have "WalkStack_loop options0 spareSlice resolver0 0 [] st =
        Inr ([''leaf''], st\<lparr>known := known st + 1\<rparr>)"
    by (simp add: b len p WalkStack_loop_unfold[of _ _ _ 0]
        WalkStack_loop_unfold[of _ _ _ "Suc 0"]
        frameName_def resolveFrame_def resolver0_def Let_def add.commute)
  then show ?thesis by (simp add: WalkStack_def spareSlice_def len)
qed

subsection \<open>Frames appended by WalkStack\<close>

text \<open>
  C5. On a slice of 127 little-endian 64-bit instruction pointers, whatever its capacity,
  \<open>WalkStack\<close> does not panic and appends to the builder exactly \<open>k\<close> frames, \<open>k\<close> being the index
  of the first zero pointer (at most 127, and 127 when no pointer is zero): the names of the
  pointers 0..k-1, in the reverse of the kernel's leaf-first order.
\<close>

theorem WalkStack_frames:
  assumes "length (bytes stack) = 127 * 8"
  shows "firstZero (bytes stack) \<le> 127 \<and>
         (\<forall>j < firstZero (bytes stack). pointerAt (bytes stack) j \<noteq> 0) \<and>
         (firstZero (bytes stack) < 127 \<longrightarrow> pointerAt (bytes stack) (firstZero (bytes stack)) = 0) \<and>
         (\<exists>stats'. WalkStack opts sb stack resolver stats =
            Inr (sb @ rev (map (\<lambda>j. frameName opts resolver (pointerAt (bytes stack) j))
                            [0..<firstZero (bytes stack)]), stats'))"
  using WalkStack_full[OF assms] firstZero_le firstZero_nonzero firstZero_zero by blast

theorem WalkStack_frames_witness:
  "length (bytes slice0) = 127 * 8 \<and> firstZero (bytes slice0) = 2 \<and>
   (\<exists>stats'. WalkStack options0 [''comm''] slice0 resolver0 stats0 =
       Inr ([''comm'', ''root'', ''leaf''], stats'))"
proof -
  have len: "length (bytes slice0) = 127 * 8" by (simp add: slice0_def stack0_def)
  have b: "bytes slice0 = stack0" by (simp add: slice0_def)
  have up: "[0..<2] = [0, 1]" by (simp add: upt_conv_Cons)
  have "\<exists>stats'. WalkStack options0 [''comm''] slice0 resolver0 stats0 =
            Inr ([''comm''] @ rev (map (\<lambda>j. frameName options0 resolver0 (pointerAt (bytes slice0) j))
                            [0..<firstZero (bytes slice0)]), stats')"
    using WalkStack_frames[OF len, of options0 "[''comm'']" resolver0 stats0] by blast
  then show ?thesis using len
    by (simp add: b firstZero_stack0 up pointerAt_stack0_0 pointerAt_stack0_1[simplified]
        frameName_def resolveFrame_def resolver0_def Let_def)
qed

subsection \<open>Slice bounds in WalkStack\<close>

text \<open>
  C8. \<open>WalkStack\<close> reads out of the bounds of its input, and panics, exactly when the input is
  not empty, its capacity is less than 1016 = 127 * 8 bytes, and no complete 8-byte frame of
  its backing array is a zero pointer. So for the elements \<open>bs\<close> of a slice, the reads are in
  bounds for every capacity the slice may have exactly when \<open>bs\<close> is empty, or is at least 1016
  bytes long, or has a zero pointer among its complete frames; for a non-empty \<open>bs\<close> shorter
  than 1016 bytes with no such pointer, the slice without spare capacity panics. And in
  those three cases no read goes past the length: the result is the same for every capacity.
\<close>

theorem WalkStack_in_bounds:
  "(WalkStack opts sb stack resolver stats = Inl Panic \<longleftrightarrow>
      bytes stack \<noteq> [] \<and> length (backing stack) < 127 * 8 \<and>
      (\<forall>k < length (backing stack) div 8. pointerAt (backing stack) k \<noteq> 0)) \<and>
   ((\<forall>sp. WalkStack opts sb \<lparr>bytes = bs, spare = sp\<rparr> resolver stats \<noteq> Inl Panic) \<longleftrightarrow>
      bs = [] \<or> 127 * 8 \<le> length bs \<or> (\<exists>k < length bs div 8. pointerAt bs k = 0)) \<and>
   (bs = [] \<or> 127 * 8 \<le> length bs \<or> (\<exists>k < length bs div 8. pointerAt bs k = 0) \<longrightarrow>
      (\<forall>sp. WalkStack opts sb \<lparr>bytes = bs, spare = sp\<rparr> resolver stats =
            WalkStack opts sb \<lparr>bytes = bs, spare = []\<rparr> resolver stats))"
proof (intro conjI)
  show "WalkStack opts sb stack resolver stats = Inl Panic \<longleftrightarrow>
      bytes stack \<noteq> [] \<and> length (backing stack) < 127 * 8 \<and>
      (\<forall>k < length (backing stack) div 8. pointerAt (backing stack) k \<noteq> 0)"
    by (rule WalkStack_panic)
  have spare: "\<forall>sp. WalkStack opts sb \<lparr>bytes = bs, spare = sp\<rparr> resolver stats =
            WalkStack opts sb \<lparr>bytes = bs, spare = []\<rparr> resolver stats"
    if ok: "bs = [] \<or> 127 * 8 \<le> length bs \<or> (\<exists>k < length bs div 8. pointerAt bs k = 0)"
  proof (cases "bs = []")
    case True
    then show ?thesis by (simp add: WalkStack_def)
  next
    case False
    have fr: "k * 8 + 8 \<le> length bs" if "k < length bs div 8" for k
      using that by arith
    have "127 * 8 \<le> length bs \<or> (\<exists>k. 0 \<le> k \<and> k * 8 + 8 \<le> length bs \<and> pointerAt bs k = 0)"
      using ok False fr by blast
    note e = WalkStack_loop_spare[OF this]
    show ?thesis
    proof
      fix sp
      have "WalkStack opts sb \<lparr>bytes = bs, spare = sp\<rparr> resolver stats =
            (case WalkStack_loop opts \<lparr>bytes = bs, spare = sp\<rparr> resolver 0 [] stats of
               Inl p \<Rightarrow> Inl p
             | Inr (stackFrames, stats') \<Rightarrow> Inr (sb @ rev stackFrames, stats'))"
        using False by (simp add: WalkStack_def)
      also have "\<dots> =
            (case WalkStack_loop opts \<lparr>bytes = bs, spare = []\<rparr> resolver 0 [] stats of
               Inl p \<Rightarrow> Inl p
             | Inr (stackFrames, stats') \<Rightarrow> Inr (sb @ rev stackFrames, stats'))"
        by (simp only: e[of opts sp resolver "[]" stats])
      also have "\<dots> = WalkStack opts sb \<lparr>bytes = bs, spare = []\<rparr> resolver stats"
        using False by (simp add: WalkStack_def)
      finally show "WalkStack opts sb \<lparr>bytes = bs, spare = sp\<rparr> resolver stats =
            WalkStack opts sb \<lparr>bytes = bs, spare = []\<rparr> resolver stats" .
    qed
  qed
  then show "bs = [] \<or> 127 * 8 \<le> length bs \<or> (\<exists>k < length bs div 8. pointerAt bs k = 0) \<longrightarrow>
      (\<forall>sp. WalkStack opts sb \<lparr>bytes = bs, spare = sp\<rparr> resolver stats =
            WalkStack opts sb \<lparr>bytes = bs, spare = []\<rparr> resolver stats)"
    by blast
  have none: "WalkStack opts sb \<lparr>bytes = bs, spare = []\<rparr> resolver stats = Inl Panic \<longleftrightarrow>
      bs \<noteq> [] \<and> length bs < 127 * 8 \<and> (\<forall>k < length bs div 8. pointerAt bs k \<noteq> 0)"
    using WalkStack_panic[of opts sb "\<lparr>bytes = bs, spare = []\<rparr>" resolver stats]
    by (simp add: backing_def)
  show "(\<forall>sp. WalkStack opts sb \<lparr>bytes = bs, spare = sp\<rparr> resolver stats \<noteq> Inl Panic) \<longleftrightarrow>
      bs = [] \<or> 127 * 8 \<le> length bs \<or> (\<exists>k < length bs div 8. pointerAt bs k = 0)"
  proof
    assume "\<forall>sp. WalkStack opts sb \<lparr>bytes = bs, spare = sp\<rparr> resolver stats \<noteq> Inl Panic"
    then have "WalkStack opts sb \<lparr>bytes = bs, spare = []\<rparr> resolver stats \<noteq> Inl Panic" by blast
    then show "bs = [] \<or> 127 * 8 \<le> length bs \<or> (\<exists>k < length bs div 8. pointerAt bs k = 0)"
      using none by auto
  next
    assume ok: "bs = [] \<or> 127 * 8 \<le> length bs \<or> (\<exists>k < length bs div 8. pointerAt bs k = 0)"
    have np: "WalkStack opts sb \<lparr>bytes = bs, spare = []\<rparr> resolver stats \<noteq> Inl Panic"
      using ok none by auto
    show "\<forall>sp. WalkStack opts sb \<lparr>bytes = bs, spare = sp\<rparr> resolver stats \<noteq> Inl Panic"
    proof
      fix sp
      have "WalkStack opts sb \<lparr>bytes = bs, spare = sp\<rparr> resolver stats =
            WalkStack opts sb \<lparr>bytes = bs, spare = []\<rparr> resolver stats"
        using spare[OF ok] by blast
      then show "WalkStack opts sb \<lparr>bytes = bs, spare = sp\<rparr> resolver stats \<noteq> Inl Panic"
        using np by simp
    qed
  qed
qed

theorem WalkStack_in_bounds_witness:
  "WalkStack options0 [] shortSlice resolver0 stats0 = Inl Panic \<and>
   WalkStack options0 [] spareSlice resolver0 stats0 \<noteq> Inl Panic \<and>
   WalkStack options0 [] spareSlice resolver0 stats0 = Inr ([''leaf''], stats0\<lparr>known := 1\<rparr>) \<and>
   bytes spareSlice = bytes shortSlice \<and>
   WalkStack options0 [] endedSlice resolver0 stats0 \<noteq> Inl Panic \<and>
   WalkStack options0 [] \<lparr>bytes = bytes endedSlice, spare = replicate 8 1\<rparr> resolver0 stats0 =
     WalkStack options0 [] endedSlice resolver0 stats0 \<and>
   WalkStack options0 [] nilSlice resolver0 stats0 \<noteq> Inl Panic"
proof -
  note T = WalkStack_in_bounds
  have "\<forall>k < length (backing shortSlice) div 8. pointerAt (backing shortSlice) k \<noteq> 0"
    using pointerAt_shortStack_0 by (simp add: shortSlice_def backing_def shortStack_def)
  moreover have "bytes shortSlice \<noteq> []" "length (backing shortSlice) < 127 * 8"
    by (simp_all add: shortSlice_def backing_def shortStack_def)
  ultimately have a: "WalkStack options0 [] shortSlice resolver0 stats0 = Inl Panic"
    using T[where stack = shortSlice and opts = options0 and sb = "[]"
        and resolver = resolver0 and stats = stats0, THEN conjunct1]
    by blast
  have "backing spareSlice = shortStack @ replicate 8 0"
    by (simp add: spareSlice_def backing_def)
  moreover have "(1::nat) < length (shortStack @ replicate 8 0) div 8"
    by (simp add: shortStack_def)
  ultimately have "\<not> (\<forall>k < length (backing spareSlice) div 8. pointerAt (backing spareSlice) k \<noteq> 0)"
    using pointerAt_ended_1 by auto
  then have b: "WalkStack options0 [] spareSlice resolver0 stats0 \<noteq> Inl Panic"
    using T[where stack = spareSlice and opts = options0 and sb = "[]"
        and resolver = resolver0 and stats = stats0, THEN conjunct1]
    by blast
  have c: "bytes spareSlice = bytes shortSlice" by (simp add: spareSlice_def shortSlice_def)
  have z: "\<exists>k < length (bytes endedSlice) div 8. pointerAt (bytes endedSlice) k = 0"
    using pointerAt_ended_1 by (intro exI[of _ 1]) (simp add: endedSlice_def shortStack_def)
  have e: "\<lparr>bytes = bytes endedSlice, spare = []\<rparr> = endedSlice" by (simp add: endedSlice_def)
  note T2 = T[where bs = "bytes endedSlice" and opts = options0
      and sb = "[]" and resolver = resolver0 and stats = stats0, THEN conjunct2, THEN conjunct1]
  note T3 = T[where bs = "bytes endedSlice" and opts = options0
      and sb = "[]" and resolver = resolver0 and stats = stats0, THEN conjunct2, THEN conjunct2]
  have "\<forall>sp. WalkStack options0 [] \<lparr>bytes = bytes endedSlice, spare = sp\<rparr> resolver0 stats0 \<noteq>
      Inl Panic"
    using T2 z by blast
  then have "WalkStack options0 [] \<lparr>bytes = bytes endedSlice, spare = []\<rparr> resolver0 stats0 \<noteq>
      Inl Panic"
    by blast
  then have d: "WalkStack options0 [] endedSlice resolver0 stats0 \<noteq> Inl Panic"
    by (simp add: e)
  have "WalkStack options0 [] \<lparr>bytes = bytes endedSlice, spare = replicate 8 1\<rparr> resolver0 stats0 =
     WalkStack options0 [] \<lparr>bytes = bytes endedSlice, spare = []\<rparr> resolver0 stats0"
    using T3 z by blast
  then have f: "WalkStack options0 [] \<lparr>bytes = bytes endedSlice, spare = replicate 8 1\<rparr> resolver0 stats0 =
     WalkStack options0 [] endedSlice resolver0 stats0"
    by (simp add: e)
  have "bytes nilSlice = []" by (simp add: nilSlice_def)
  then have g: "WalkStack options0 [] nilSlice resolver0 stats0 \<noteq> Inl Panic"
    using T[where stack = nilSlice and opts = options0 and sb = "[]"
        and resolver = resolver0 and stats = stats0, THEN conjunct1]
    by blast
  have h: "WalkStack options0 [] spareSlice resolver0 stats0 = Inr ([''leaf''], stats0\<lparr>known := 1\<rparr>)"
    by (simp add: WalkStack_spareSlice stats0_def)
  show ?thesis using a b c d f g h by simp
qed

section \<open>Properties of the classifier\<close>

lemma NewSession_options0: "NewSession None options0 = Inr (Inr newSession0)"
  by (simp add: NewSession_def newSession0_def options0_def)

lemma Base_uwsgi: "Base ''/usr/sbin/uwsgi'' = ''uwsgi''"
  by (simp add: Base_def)

lemma selectProfilingType_classification:
  assumes "Readlink env p = Inr exePath" and "ReadFile env p = Inr content" and "content \<noteq> []"
  shows "\<exists>pi. selectProfilingType env s p target = Inr pi \<and>
           typ' pi = (if (PythonEnabled (options s) \<and> prefix ''python'' (Base exePath)) \<or>
                          Base exePath = ''uwsgi''
                      then ProfilingTypePython else ProfilingTypeFramepointers)"
  using assms by (auto simp: selectProfilingType_def Let_def)

subsection \<open>The trim of comm\<close>

text \<open>
  C9. When both reads of procfs succeed, \<open>selectProfilingType\<close> indexes the last byte of the
  content of \<open>/proc/<pid>/comm\<close> whatever its length: it panics exactly when the read returned
  no byte. Otherwise the comm it returns is the content without its last byte when that byte
  is a newline, and the content itself when it is not.
\<close>

theorem selectProfilingType_trim:
  assumes "Readlink env p = Inr exePath" and "ReadFile env p = Inr content"
  shows "(selectProfilingType env s p target = Inl Panic \<longleftrightarrow> content = []) \<and>
         (\<forall>pi. selectProfilingType env s p target = Inr pi \<longrightarrow>
            comm pi = (if last content = CHR 0x0A then butlast content else content))"
  using assms by (auto simp: selectProfilingType_def Let_def)

theorem selectProfilingType_trim_witness:
  "Readlink env0 300 = Inr ''/usr/sbin/uwsgi'' \<and> ReadFile env0 300 = Inr (''uwsgi'' @ [CHR 0x0A]) \<and>
   selectProfilingType env0 session0 300 () \<noteq> Inl Panic \<and>
   (\<exists>pi. selectProfilingType env0 session0 300 () = Inr pi \<and> comm pi = ''uwsgi'') \<and>
   ReadFile envBareComm 300 = Inr ''uwsgi'' \<and>
   (\<exists>pi. selectProfilingType envBareComm session0 300 () = Inr pi \<and> comm pi = ''uwsgi'') \<and>
   ReadFile envEmptyComm 300 = Inr [] \<and>
   selectProfilingType envEmptyComm session0 300 () = Inl Panic"
proof -
  have a: "Readlink env0 300 = Inr ''/usr/sbin/uwsgi''" by (simp add: env0_def)
  have b: "ReadFile env0 300 = Inr (''uwsgi'' @ [CHR 0x0A])" by (simp add: env0_def)
  note t = selectProfilingType_trim[OF a b, of session0 "()"]
  have np: "selectProfilingType env0 session0 300 () \<noteq> Inl Panic" using t by simp
  then obtain pi where pi: "selectProfilingType env0 session0 300 () = Inr pi"
    by (cases "selectProfilingType env0 session0 300 ()") auto
  then have c: "comm pi = ''uwsgi''" using t by simp
  have a2: "Readlink envBareComm 300 = Inr ''/usr/sbin/uwsgi''"
    by (simp add: envBareComm_def env0_def)
  have b2: "ReadFile envBareComm 300 = Inr ''uwsgi''" by (simp add: envBareComm_def)
  note t2 = selectProfilingType_trim[OF a2 b2, of session0 "()"]
  have "selectProfilingType envBareComm session0 300 () \<noteq> Inl Panic" using t2 by simp
  then obtain pi2 where pi2: "selectProfilingType envBareComm session0 300 () = Inr pi2"
    by (cases "selectProfilingType envBareComm session0 300 ()") auto
  then have c2: "comm pi2 = ''uwsgi''" using t2 by simp
  have a3: "Readlink envEmptyComm 300 = Inr ''/usr/sbin/uwsgi''"
    by (simp add: envEmptyComm_def env0_def)
  have b3: "ReadFile envEmptyComm 300 = Inr []" by (simp add: envEmptyComm_def)
  have p3: "selectProfilingType envEmptyComm session0 300 () = Inl Panic"
    using selectProfilingType_trim[OF a3 b3, of session0 "()"] by simp
  show ?thesis using a b np pi c b2 pi2 c2 b3 p3 by simp
qed

subsection \<open>uwsgi with python unwinding disabled\<close>

text \<open>
  C2. The claim asks for \<open>Python\<close> exactly when python unwinding is enabled and the basename
  of the exe starts with \<open>python\<close> or equals \<open>uwsgi\<close>. The condition of the code is
  \<open>PythonEnabled && HasPrefix(exe, "python") || exe == "uwsgi"\<close>, which
  \<open>selectProfilingType_classification\<close> reads as the code does: with python unwinding
  disabled, a pid whose exe is \<open>/usr/sbin/uwsgi\<close> is classified \<open>Python\<close>.
\<close>

theorem selectProfilingType_uwsgi:
  "PythonEnabled (options session0) = False \<and>
   selectProfilingType env0 session0 300 () =
     Inr \<lparr>pid = 300, comm = ''uwsgi'', exe = [], typ' = ProfilingTypePython\<rparr>"
  by (simp add: selectProfilingType_def env0_def session0_def newSession0_def options0_def Base_uwsgi)

section \<open>Properties of the harvest\<close>

lemma set_samplesOf:
  "(t, st, v, p, a) \<in> set (samplesOf eff) \<longleftrightarrow> Emit t st v p a \<in> set eff"
  by (induction eff) (auto simp: samplesOf_def split: effect.splits)

lemma set_emittedPids:
  "p \<in> set (emittedPids eff) \<longleftrightarrow> (\<exists>t st v a. Emit t st v p a \<in> set eff)"
  unfolding emittedPids_def using set_samplesOf[of _ _ _ p _ eff] by force

lemma deadGrown_refl: "deadGrown s s"
  unfolding deadGrown_def by (rule exI[of _ "dead (pids s)"]) simp

lemma deadGrown_trans: "deadGrown s s1 \<Longrightarrow> deadGrown s1 s2 \<Longrightarrow> deadGrown s s2"
proof -
  assume "deadGrown s s1" and "deadGrown s1 s2"
  then obtain ds ds' where a: "s1 = s\<lparr>pids := (pids s)\<lparr>dead := ds\<rparr>\<rparr>" "set (dead (pids s)) \<subseteq> set ds"
    and b: "s2 = s1\<lparr>pids := (pids s1)\<lparr>dead := ds'\<rparr>\<rparr>" "set (dead (pids s1)) \<subseteq> set ds'"
    unfolding deadGrown_def by blast
  have "s2 = s\<lparr>pids := (pids s)\<lparr>dead := ds'\<rparr>\<rparr>" using a(1) b(1) by simp
  moreover have "set (dead (pids s)) \<subseteq> set ds'" using a b(2) by simp
  ultimately show ?thesis unfolding deadGrown_def by blast
qed

lemma deadGrown_fields:
  assumes "deadGrown s s1"
  shows "all (pids s1) = all (pids s)" "unknown (pids s1) = unknown (pids s)"
    "options s1 = options s" "roundNumber s1 = roundNumber s" "pyperf s1 = pyperf s"
    "set (dead (pids s)) \<subseteq> set (dead (pids s1))"
  using assms unfolding deadGrown_def by auto

lemma deadGrown_comm: "deadGrown s s1 \<Longrightarrow> session_comm s1 p = session_comm s p"
  by (simp add: session_comm_def deadGrown_fields(1))

lemma WalkStack_extends:
  "WalkStack opts sb stack r st = Inr (sb', st') \<Longrightarrow> \<exists>fr. sb' = sb @ fr"
  by (auto simp: WalkStack_def split: if_splits sum.splits)

lemma collectMetrics_no_Emit:
  "collectMetrics s l stats sb = (eff, r) \<Longrightarrow> Emit t st v p a \<notin> set eff"
  by (auto simp: collectMetrics_def Let_def split: option.splits if_splits)

lemma collectRegularEntry_cases:
  assumes "collectRegularEntry env s ck v = (s1, eff, r)"
  shows "(s1 = s \<and> eff = []) \<or>
         (s1 = s\<lparr>pids := (pids s)\<lparr>dead :=
            List.insert (word_of_int (procPid (GetProcTable env (Pid ck)))) (dead (pids s))\<rparr>\<rparr> \<and>
          eff = []) \<or>
         (\<exists>labels sb1 stats1 sb2 stats2 meff.
            s1 = s \<and> FindTarget env (Pid ck) = Some labels \<and> Pid ck \<notin> set (dead (pids s)) \<and>
            (if CollectUser (options s)
             then WalkStack (options s) [session_comm s (Pid ck)]
                    (if CollectUser (options s) then GetStack env (UserStack ck) else nilSlice)
                    (procResolve (GetProcTable env (Pid ck)))
                    \<lparr>known = 0, unknownSymbols = 0, unknownModules = 0\<rparr>
             else Inr ([session_comm s (Pid ck)],
                       \<lparr>known = 0, unknownSymbols = 0, unknownModules = 0\<rparr>))
              = Inr (sb1, stats1) \<and>
            (if CollectKernel (options s)
             then WalkStack (options s) sb1
                    (if CollectKernel (options s) then GetStack env (KernStack ck) else nilSlice)
                    (GetKallsyms env) stats1
             else Inr (sb1, stats1)) = Inr (sb2, stats2) \<and>
            length sb2 \<noteq> 1 \<and>
            collectMetrics s labels stats2 (rev sb2) = (meff, r) \<and>
            eff = Emit labels (rev sb2) (ucast v) (Pid ck) SampleAggregated # meff)"
proof (cases "FindTarget env (Pid ck)")
  case None
  then have "s1 = s \<and> eff = []" using assms by (simp add: collectRegularEntry_def)
  then show ?thesis by (rule disjI1)
next
  case (Some labels)
  show ?thesis
  proof (cases "Pid ck \<in> set (dead (pids s))")
    case True
    then have "s1 = s \<and> eff = []" using assms Some by (simp add: collectRegularEntry_def)
    then show ?thesis by (rule disjI1)
  next
    case nd: False
    show ?thesis
    proof (cases "procError (GetProcTable env (Pid ck))")
      case (Some e)
      then have "s1 = s\<lparr>pids := (pids s)\<lparr>dead :=
            List.insert (word_of_int (procPid (GetProcTable env (Pid ck)))) (dead (pids s))\<rparr>\<rparr> \<and>
          eff = []"
        using assms \<open>FindTarget env (Pid ck) = Some labels\<close> nd
        by (simp add: collectRegularEntry_def Let_def)
      then show ?thesis by (rule disjI2[OF disjI1])
    next
      case None
      let ?U = "if CollectUser (options s)
             then WalkStack (options s) [session_comm s (Pid ck)]
                    (if CollectUser (options s) then GetStack env (UserStack ck) else nilSlice)
                    (procResolve (GetProcTable env (Pid ck)))
                    \<lparr>known = 0, unknownSymbols = 0, unknownModules = 0\<rparr>
             else Inr ([session_comm s (Pid ck)],
                       \<lparr>known = 0, unknownSymbols = 0, unknownModules = 0\<rparr>)"
      let ?K = "\<lambda>sb1 stats1. if CollectKernel (options s)
             then WalkStack (options s) sb1
                    (if CollectKernel (options s) then GetStack env (KernStack ck) else nilSlice)
                    (GetKallsyms env) stats1
             else Inr (sb1, stats1)"
      have eq: "collectRegularEntry env s ck v =
          (case ?U of
             Inl Panic \<Rightarrow> (s, [], Panicked)
           | Inr (sb1, stats1) \<Rightarrow>
               (case ?K sb1 stats1 of
                  Inl Panic \<Rightarrow> (s, [], Panicked)
                | Inr (sb2, stats2) \<Rightarrow>
                    if length sb2 = 1 then (s, [], Ok)
                    else
                      let sb3 = rev sb2;
                          (eff, r) = collectMetrics s labels stats2 sb3
                      in (s, Emit labels sb3 (ucast v) (Pid ck) SampleAggregated # eff, r)))"
        unfolding collectRegularEntry_def Let_def
        using \<open>FindTarget env (Pid ck) = Some labels\<close> nd None
        by simp
      show ?thesis
      proof (cases ?U)
        case (Inl p)
        then have "s1 = s \<and> eff = []" using assms eq by (cases p) simp
        then show ?thesis by (rule disjI1)
      next
        case (Inr a)
        obtain sb1 stats1 where a: "a = (sb1, stats1)" by (cases a) auto
        note u = Inr[unfolded a]
        show ?thesis
        proof (cases "?K sb1 stats1")
          case (Inl p)
          then have "s1 = s \<and> eff = []" using assms eq u by (cases p) simp
          then show ?thesis by (rule disjI1)
        next
          case (Inr b)
          obtain sb2 stats2 where b: "b = (sb2, stats2)" by (cases b) auto
          note k = Inr[unfolded b]
          show ?thesis
          proof (cases "length sb2 = 1")
            case True
            then have "s1 = s \<and> eff = []" using assms eq u k by simp
            then show ?thesis by (rule disjI1)
          next
            case False
            obtain meff r' where m: "collectMetrics s labels stats2 (rev sb2) = (meff, r' :: outcome)"
              by (cases "collectMetrics s labels stats2 (rev sb2) :: 'a effect list \<times> outcome") auto
            have "(s1, eff, r) = (s, Emit labels (rev sb2) (ucast v) (Pid ck) SampleAggregated # meff, r')"
              using assms eq u k False m by (simp add: Let_def)
            then have "s1 = s" "r' = r"
              "eff = Emit labels (rev sb2) (ucast v) (Pid ck) SampleAggregated # meff"
              by simp_all
            then have "\<exists>labels sb1 stats1 sb2 stats2 meff.
            s1 = s \<and> FindTarget env (Pid ck) = Some labels \<and> Pid ck \<notin> set (dead (pids s)) \<and>
            ?U = Inr (sb1, stats1) \<and> ?K sb1 stats1 = Inr (sb2, stats2) \<and>
            length sb2 \<noteq> 1 \<and>
            collectMetrics s labels stats2 (rev sb2) = (meff, r) \<and>
            eff = Emit labels (rev sb2) (ucast v) (Pid ck) SampleAggregated # meff"
              using \<open>FindTarget env (Pid ck) = Some labels\<close> nd u k False m by blast
            then show ?thesis by (rule disjI2[OF disjI2])
          qed
        qed
      qed
    qed
  qed
qed

lemma collectRegularEntry_deadGrown:
  "collectRegularEntry env s ck v = (s1, eff, r) \<Longrightarrow> deadGrown s s1"
proof -
  assume a: "collectRegularEntry env s ck v = (s1, eff, r)"
  have "s1 = s \<or> s1 = s\<lparr>pids := (pids s)\<lparr>dead :=
           List.insert (word_of_int (procPid (GetProcTable env (Pid ck)))) (dead (pids s))\<rparr>\<rparr>"
    using collectRegularEntry_cases[OF a] by blast
  then show ?thesis
    using deadGrown_refl[of s] by (auto simp: deadGrown_def)
qed

lemma collectRegularEntry_Emit:
  assumes "collectRegularEntry env s ck v = (s1, eff, r)" and "Emit t st val p a \<in> set eff"
  shows "p = Pid ck \<and> p \<notin> set (dead (pids s)) \<and> last st = session_comm s p \<and>
         butlast st \<noteq> [] \<and> a = SampleAggregated \<and> FindTarget env p = Some t"
proof -
  have "eff \<noteq> []" using assms(2) by auto
  with collectRegularEntry_cases[OF assms(1)] obtain labels sb1 stats1 sb2 stats2 meff where
    t: "FindTarget env (Pid ck) = Some labels" and nd: "Pid ck \<notin> set (dead (pids s))" and
    w1: "(if CollectUser (options s)
          then WalkStack (options s) [session_comm s (Pid ck)]
                 (if CollectUser (options s) then GetStack env (UserStack ck) else nilSlice)
                 (procResolve (GetProcTable env (Pid ck)))
                 \<lparr>known = 0, unknownSymbols = 0, unknownModules = 0\<rparr>
          else Inr ([session_comm s (Pid ck)], \<lparr>known = 0, unknownSymbols = 0, unknownModules = 0\<rparr>))
         = Inr (sb1, stats1)" and
    w2: "(if CollectKernel (options s)
          then WalkStack (options s) sb1
                 (if CollectKernel (options s) then GetStack env (KernStack ck) else nilSlice)
                 (GetKallsyms env) stats1
          else Inr (sb1, stats1)) = Inr (sb2, stats2)" and
    len: "length sb2 \<noteq> 1" and
    m: "collectMetrics s labels stats2 (rev sb2) = (meff, r)" and
    e: "eff = Emit labels (rev sb2) (ucast v) (Pid ck) SampleAggregated # meff"
    by blast
  from w1 obtain fr1 where f1: "sb1 = [session_comm s (Pid ck)] @ fr1"
    using WalkStack_extends by (fastforce split: if_splits)
  from w2 obtain fr2 where f2: "sb2 = sb1 @ fr2"
    using WalkStack_extends by (fastforce split: if_splits)
  have eq: "Emit t st val p a = Emit labels (rev sb2) (ucast v) (Pid ck) SampleAggregated"
    using assms(2) e collectMetrics_no_Emit[OF m] by auto
  have "fr1 @ fr2 \<noteq> []" using len f1 f2 by auto
  then show ?thesis using eq f1 f2 t nd by (auto simp: butlast_append)
qed

lemma collectRegularLoop_inv:
  "collectRegularLoop env keys vs i s known0 = (s1, known1, eff, r) \<Longrightarrow>
   deadGrown s s1 \<and>
   (\<forall>t st v p a. Emit t st v p a \<in> set eff \<longrightarrow>
      p \<notin> set (dead (pids s)) \<and> last st = session_comm s p \<and> butlast st \<noteq> [] \<and>
      a = SampleAggregated \<and> FindTarget env p = Some t)"
proof (induction keys arbitrary: i s known0 s1 known1 eff r)
  case Nil
  then show ?case by (simp add: deadGrown_refl)
next
  case (Cons ck keys)
  show ?case
  proof (cases "length vs \<le> i")
    case True
    then show ?thesis using Cons.prems by (simp add: deadGrown_refl)
  next
    case False
    obtain sa effa ra where en: "collectRegularEntry env s ck (vs ! i) = (sa, effa, ra)"
      by (cases "collectRegularEntry env s ck (vs ! i)") auto
    have ga: "deadGrown s sa" by (rule collectRegularEntry_deadGrown[OF en])
    have ea: "\<And>t st v p a. Emit t st v p a \<in> set effa \<Longrightarrow>
        p \<notin> set (dead (pids s)) \<and> last st = session_comm s p \<and> butlast st \<noteq> [] \<and>
        a = SampleAggregated \<and> FindTarget env p = Some t"
      using collectRegularEntry_Emit[OF en] by blast
    show ?thesis
    proof (cases "ra = Ok")
      case nok: False
      then have "s1 = sa" "eff = effa"
        using Cons.prems False en by (auto simp: Let_def split: outcome.splits)
      then show ?thesis using ga ea by blast
    next
      case ok: True
      obtain sb knownb effb rb where
        lp: "collectRegularLoop env keys vs (i + 1) sa (addKnownStacks ck known0) = (sb, knownb, effb, rb)"
        by (cases "collectRegularLoop env keys vs (i + 1) sa (addKnownStacks ck known0)") auto
      have res: "s1 = sb" "eff = effa @ effb"
        using Cons.prems False en ok lp by (auto simp: Let_def)
      from Cons.IH[OF lp] have gb: "deadGrown sa sb" and
        eb: "\<And>t st v p a. Emit t st v p a \<in> set effb \<Longrightarrow>
          p \<notin> set (dead (pids sa)) \<and> last st = session_comm sa p \<and> butlast st \<noteq> [] \<and>
          a = SampleAggregated \<and> FindTarget env p = Some t"
        by blast+
      have eb': "\<And>t st v p a. Emit t st v p a \<in> set effb \<Longrightarrow>
          p \<notin> set (dead (pids s)) \<and> last st = session_comm s p \<and> butlast st \<noteq> [] \<and>
          a = SampleAggregated \<and> FindTarget env p = Some t"
      proof -
        fix t st v p a assume "Emit t st v p a \<in> set effb"
        from eb[OF this] show "p \<notin> set (dead (pids s)) \<and> last st = session_comm s p \<and>
          butlast st \<noteq> [] \<and> a = SampleAggregated \<and> FindTarget env p = Some t"
          using deadGrown_comm[OF ga, of p] deadGrown_fields(6)[OF ga] by auto
      qed
      show ?thesis
        using deadGrown_trans[OF ga gb] ea eb' res by auto
    qed
  qed
qed

lemma collectRegularProfile_inv:
  assumes "collectRegularProfile env s = (s1, eff, r)"
  shows "deadGrown s s1"
    and "Emit t st v p a \<in> set eff \<Longrightarrow>
      p \<notin> set (dead (pids s)) \<and> last st = session_comm s p \<and> butlast st \<noteq> [] \<and>
      a = SampleAggregated \<and> FindTarget env p = Some t"
proof -
  show "deadGrown s s1"
  proof (cases "getCountsMapValues env")
    case (Inl err)
    then show ?thesis using assms by (simp add: collectRegularProfile_def deadGrown_refl)
  next
    case (Inr kvb)
    obtain keys vs batch where kvb: "kvb = (keys, vs, batch)" by (cases kvb) auto
    obtain sa ka ea ra where lp: "collectRegularLoop env keys vs 0 s [] = (sa, ka, ea, ra)"
      by (cases "collectRegularLoop env keys vs 0 s []") auto
    have "s1 = sa"
      using assms Inr kvb lp
      by (auto simp: collectRegularProfile_def split: outcome.splits option.splits)
    then show ?thesis using collectRegularLoop_inv[OF lp] by simp
  qed
  show "Emit t st v p a \<in> set eff \<Longrightarrow>
      p \<notin> set (dead (pids s)) \<and> last st = session_comm s p \<and> butlast st \<noteq> [] \<and>
      a = SampleAggregated \<and> FindTarget env p = Some t"
  proof (cases "getCountsMapValues env")
    case (Inl err)
    assume "Emit t st v p a \<in> set eff"
    then show ?thesis using assms Inl by (auto simp: collectRegularProfile_def)
  next
    case (Inr kvb)
    assume em: "Emit t st v p a \<in> set eff"
    obtain keys vs batch where kvb: "kvb = (keys, vs, batch)" by (cases kvb) auto
    obtain sa ka ea ra where lp: "collectRegularLoop env keys vs 0 s [] = (sa, ka, ea, ra)"
      by (cases "collectRegularLoop env keys vs 0 s []") auto
    have "Emit t st v p a \<in> set ea"
      using assms Inr kvb lp em
      by (auto simp: collectRegularProfile_def split: outcome.splits option.splits)
    then show ?thesis using collectRegularLoop_inv[OF lp] by blast
  qed
qed

lemma collectRegularProfile_env0:
  "collectRegularProfile env0 session0 =
     (session0,
      [GetCountsMapValues,
       Emit () [''leaf'', ''root'', ''nginx''] 3 100 True,
       SymtabMetricsAdd () \<lparr>known = 2, unknownSymbols = 0, unknownModules = 0\<rparr>,
       ClearCountsMap, ClearStacksMap [7]],
      Ok)"
  by (simp add: collectRegularProfile_def env0_def session0_def newSession0_def
      collectRegularEntry_def addKnownStacks_def GetStack_def session_comm_def
      collectMetrics_def SampleAggregated_def Let_def
      WalkStack_slice0[unfolded options0_def] options0_def)

subsection \<open>The frames of an emitted sample\<close>

text \<open>
  C1, as the claim states it, fails: the builder holds the comm first, and \<open>lo.Reverse\<close> turns
  it before the callback, so the stack that pid 100 emits starts with the leaf frame and not
  with the comm \<open>nginx\<close>.
\<close>

theorem collectRegularProfile_comm_first_counterexample:
  "((), [''leaf'', ''root'', ''nginx''], 3, 100, True)
     \<in> set (samplesOf (fst (snd (collectRegularProfile env0 session0)))) \<and>
   session_comm session0 100 = ''nginx'' \<and>
   hd [''leaf'', ''root'', ''nginx''] \<noteq> session_comm session0 100"
proof -
  have c: "session_comm session0 100 = ''nginx''"
    by (simp add: session_comm_def session0_def)
  show ?thesis by (simp add: collectRegularProfile_env0 samplesOf_def c)
qed

text \<open>
  C1, amended. For every sample emitted by the regular pass, the last element of the
  emitted stack is the comm of the pid (\<open>pid_unknown\<close> when \<open>all\<close> has no entry for the pid or
  an empty comm), and the part before it is non-empty: the stack is leaf first, comm last.
\<close>

theorem collectRegularProfile_comm_last:
  assumes "collectRegularProfile env s = (s1, eff, r)"
    and "(target, stack, v, p, aggregation) \<in> set (samplesOf eff)"
  shows "last stack = session_comm s p \<and> butlast stack \<noteq> [] \<and>
         (map_of (all (pids s)) p = None \<longrightarrow> last stack = ''pid_unknown'')"
proof -
  have "Emit target stack v p aggregation \<in> set eff"
    using assms(2) by (simp add: set_samplesOf)
  then have "last stack = session_comm s p \<and> butlast stack \<noteq> []"
    using collectRegularProfile_inv(2)[OF assms(1)] by blast
  then show ?thesis by (simp add: session_comm_def)
qed

theorem collectRegularProfile_comm_last_witness:
  "collectRegularProfile env0 session0 =
     (session0,
      [GetCountsMapValues,
       Emit () [''leaf'', ''root'', ''nginx''] 3 100 True,
       SymtabMetricsAdd () \<lparr>known = 2, unknownSymbols = 0, unknownModules = 0\<rparr>,
       ClearCountsMap, ClearStacksMap [7]],
      Ok) \<and>
   last [''leaf'', ''root'', ''nginx''] = session_comm session0 100 \<and>
   butlast [''leaf'', ''root'', ''nginx''] \<noteq> []"
proof -
  have "((), [''leaf'', ''root'', ''nginx''], 3, 100, True) \<in> set (samplesOf
      [GetCountsMapValues,
       Emit () [''leaf'', ''root'', ''nginx''] 3 100 True,
       SymtabMetricsAdd () \<lparr>known = 2, unknownSymbols = 0, unknownModules = 0\<rparr>,
       ClearCountsMap, ClearStacksMap [7]])"
    by (simp add: samplesOf_def)
  from collectRegularProfile_comm_last[OF collectRegularProfile_env0 this]
  show ?thesis using collectRegularProfile_env0 by blast
qed

subsection \<open>Dead pids at harvest\<close>

text \<open>
  C4. A pid that is in \<open>dead\<close> when the regular pass begins is the pid of no sample the
  regular pass emits, whatever the answers of the kernel maps, of the target finder and of
  the symbol cache are.
\<close>

theorem collectRegularProfile_skips_dead:
  assumes "p \<in> set (dead (pids s))"
  shows "p \<notin> set (emittedPids (fst (snd (collectRegularProfile env s))))"
proof
  assume "p \<in> set (emittedPids (fst (snd (collectRegularProfile env s))))"
  then obtain t st v a where
    e: "Emit t st v p a \<in> set (fst (snd (collectRegularProfile env s)))"
    by (auto simp: set_emittedPids)
  obtain s1 eff r where c: "collectRegularProfile env s = (s1, eff, r)"
    by (cases "collectRegularProfile env s") auto
  then have "p \<notin> set (dead (pids s))"
    using collectRegularProfile_inv(2)[OF c, of t st v p a] e by simp
  then show False using assms by simp
qed

theorem collectRegularProfile_skips_dead_witness:
  "200 \<in> set (dead (pids session0)) \<and>
   map Pid (fst (projr (getCountsMapValues env0))) = [100, 200] \<and>
   200 \<notin> set (emittedPids (fst (snd (collectRegularProfile env0 session0)))) \<and>
   emittedPids (fst (snd (collectRegularProfile env0 session0))) = [100]"
proof -
  have d: "200 \<in> set (dead (pids session0))" by (simp add: session0_def)
  have "emittedPids (fst (snd (collectRegularProfile env0 session0))) = [100]"
    by (simp add: collectRegularProfile_env0 emittedPids_def samplesOf_def)
  then show ?thesis using collectRegularProfile_skips_dead[OF d, of env0] d
    by (simp add: env0_def)
qed

section \<open>Properties of CollectProfiles\<close>

subsection \<open>What cleanup removes\<close>

lemma dom_map_of_delete: "dom (map_of (AList.delete p al)) = dom (map_of al) - {p}"
  by (simp add: AList.delete_conv')

lemma dom_map_of_update: "dom (map_of (AList.update p v al)) = insert p (dom (map_of al))"
  by (simp add: AList.update_conv')

lemma cleanup_dead_sets:
  "cleanup_dead ds s = (s1, eff) \<Longrightarrow>
   set (dead (pids s1)) = set (dead (pids s)) - set ds \<and>
   set (unknown (pids s1)) = set (unknown (pids s)) - set ds \<and>
   dom (map_of (all (pids s1))) = dom (map_of (all (pids s))) - set ds \<and>
   roundNumber s1 = roundNumber s"
proof (induction ds arbitrary: s s1 eff)
  case Nil
  then show ?case by simp
next
  case (Cons p ds)
  let ?s = "s\<lparr>pids := (pids s)\<lparr>dead := removeAll p (dead (pids s)),
                                 unknown := removeAll p (unknown (pids s)),
                                 all := AList.delete p (all (pids s))\<rparr>\<rparr>"
  obtain s2 eff2 where r: "cleanup_dead ds ?s = (s2, eff2 :: 'a effect list)"
    by (cases "cleanup_dead ds ?s :: session \<times> 'a effect list") auto
  have "s1 = s2" using Cons.prems r by (simp add: Let_def)
  then show ?case using Cons.IH[OF r] by (auto simp: dom_map_of_delete)
qed

lemma cleanup_unknown_sets:
  "cleanup_unknown env us s = (s1, eff) \<Longrightarrow>
   dead (pids s1) = dead (pids s) \<and>
   set (unknown (pids s1)) = set (unknown (pids s)) - {p \<in> set us. Stat env p \<noteq> None} \<and>
   dom (map_of (all (pids s1))) = dom (map_of (all (pids s))) - {p \<in> set us. Stat env p \<noteq> None} \<and>
   roundNumber s1 = roundNumber s"
proof (induction us arbitrary: s s1 eff)
  case Nil
  then show ?case by simp
next
  case (Cons p us)
  show ?case
  proof (cases "Stat env p")
    case None
    then have "cleanup_unknown env us s = (s1, eff)" using Cons.prems by simp
    from Cons.IH[OF this] show ?thesis using None by auto
  next
    case (Some err)
    let ?s = "s\<lparr>pids := (pids s)\<lparr>unknown := removeAll p (unknown (pids s)),
                                   all := AList.delete p (all (pids s))\<rparr>\<rparr>"
    obtain s2 eff2 where r: "cleanup_unknown env us ?s = (s2, eff2)"
      by (cases "cleanup_unknown env us ?s") auto
    have "s1 = s2" using Cons.prems Some r by (simp add: Let_def)
    then show ?thesis using Cons.IH[OF r] Some by (auto simp: dom_map_of_delete)
  qed
qed

lemma cleanup_sets:
  assumes "cleanup env s = (s1, eff)"
  shows "dead (pids s1) = []"
    and "set (unknown (pids s1)) =
           set (unknown (pids s)) - set (dead (pids s)) -
             {p \<in> set (unknown (pids s)). Stat env p \<noteq> None}"
    and "dom (map_of (all (pids s1))) =
           dom (map_of (all (pids s))) - set (dead (pids s)) -
             {p \<in> set (unknown (pids s)) - set (dead (pids s)). Stat env p \<noteq> None}"
proof -
  obtain sa ea where a: "cleanup_dead (dead (pids s)) s = (sa, ea :: 'a effect list)"
    by (cases "cleanup_dead (dead (pids s)) s :: session \<times> 'a effect list") auto
  obtain sb eb where b: "cleanup_unknown env (unknown (pids sa)) sa = (sb, eb)"
    by (cases "cleanup_unknown env (unknown (pids sa)) sa") auto
  have s1: "s1 = sb" using assms a b by (simp add: cleanup_def Let_def)
  note A = cleanup_dead_sets[OF a] and B = cleanup_unknown_sets[OF b]
  have "set (dead (pids s1)) = {}" using A B s1 by simp
  then show "dead (pids s1) = []" by simp
  show "set (unknown (pids s1)) =
           set (unknown (pids s)) - set (dead (pids s)) -
             {p \<in> set (unknown (pids s)). Stat env p \<noteq> None}"
    using A B s1 by auto
  show "dom (map_of (all (pids s1))) =
           dom (map_of (all (pids s))) - set (dead (pids s)) -
             {p \<in> set (unknown (pids s)) - set (dead (pids s)). Stat env p \<noteq> None}"
    using A B s1 by auto
qed

lemma collectPythonProfile_result:
  "collectPythonProfile env s = (s1, eff, r) \<Longrightarrow>
   s1 = s \<and> \<not> list_ex cleanupEffect eff \<and>
   r = (case fst (pythonProfile env) of None \<Rightarrow> Ok | Some err \<Rightarrow> Failed err)"
  by (auto simp: collectPythonProfile_def list_ex_iff)

lemma collectMetrics_no_cleanup:
  "collectMetrics s l stats sb = (eff, r) \<Longrightarrow> \<not> list_ex cleanupEffect eff"
  by (auto simp: collectMetrics_def Let_def split: option.splits if_splits)

lemma collectRegularEntry_no_cleanup:
  assumes "collectRegularEntry env s ck v = (s1, eff, r)"
  shows "\<not> list_ex cleanupEffect eff"
proof -
  have "eff = [] \<or> (\<exists>l sb stats meff. eff = Emit l sb (ucast v) (Pid ck) SampleAggregated # meff \<and>
           collectMetrics s l stats sb = (meff, r))"
    using assms
    by (auto simp: collectRegularEntry_def Let_def
        split: option.splits if_splits sum.splits prod.splits panic.splits)
  then show ?thesis using collectMetrics_no_cleanup by fastforce
qed

lemma collectRegularLoop_no_cleanup:
  "collectRegularLoop env keys vs i s known0 = (s1, known1, eff, r) \<Longrightarrow>
   \<not> list_ex cleanupEffect eff"
proof (induction keys arbitrary: i s known0 s1 known1 eff r)
  case Nil
  then show ?case by simp
next
  case (Cons ck keys)
  show ?case
  proof (cases "length vs \<le> i")
    case True
    then show ?thesis using Cons.prems by simp
  next
    case False
    obtain sa effa ra where en: "collectRegularEntry env s ck (vs ! i) = (sa, effa, ra)"
      by (cases "collectRegularEntry env s ck (vs ! i)") auto
    note ea = collectRegularEntry_no_cleanup[OF en]
    show ?thesis
    proof (cases "ra = Ok")
      case nok: False
      then have "eff = effa"
        using Cons.prems False en by (auto simp: Let_def split: outcome.splits)
      then show ?thesis using ea by simp
    next
      case ok: True
      obtain sb knownb effb rb where
        lp: "collectRegularLoop env keys vs (i + 1) sa (addKnownStacks ck known0) = (sb, knownb, effb, rb)"
        by (cases "collectRegularLoop env keys vs (i + 1) sa (addKnownStacks ck known0)") auto
      have "eff = effa @ effb"
        using Cons.prems False en ok lp by (auto simp: Let_def)
      then show ?thesis using ea Cons.IH[OF lp] by simp
    qed
  qed
qed

lemma collectRegularProfile_no_cleanup:
  assumes "collectRegularProfile env s = (s1, eff, r)"
  shows "\<not> list_ex cleanupEffect eff"
proof (cases "getCountsMapValues env")
  case (Inl err)
  then show ?thesis using assms by (auto simp: collectRegularProfile_def)
next
  case (Inr kvb)
  obtain keys vs batch where kvb: "kvb = (keys, vs, batch)" by (cases kvb) auto
  obtain sa ka ea ra where lp: "collectRegularLoop env keys vs 0 s [] = (sa, ka, ea, ra)"
    by (cases "collectRegularLoop env keys vs 0 s []") auto
  have "\<not> list_ex cleanupEffect ea" by (rule collectRegularLoop_no_cleanup[OF lp])
  then show ?thesis
    using assms Inr kvb lp
    by (auto simp: collectRegularProfile_def split: outcome.splits option.splits)
qed

lemma CollectProfiles_not_Ok:
  assumes "CollectProfiles env s = (s', eff, r)" and "r \<noteq> Ok"
  shows "\<not> list_ex cleanupEffect eff \<and> unknown (pids s') = unknown (pids s) \<and>
         all (pids s') = all (pids s) \<and> set (dead (pids s)) \<subseteq> set (dead (pids s'))"
proof -
  let ?s0 = "s\<lparr>roundNumber := roundNumber s + 1\<rparr>"
  obtain s1 eff1 r1 where py: "collectPythonProfile env ?s0 = (s1, eff1, r1)"
    by (cases "collectPythonProfile env ?s0") auto
  note P = collectPythonProfile_result[OF py]
  show ?thesis
  proof (cases "r1 = Ok")
    case False
    then have "s' = s1" "eff = SymCacheNextRound # eff1"
      using assms(1) py by (auto simp: CollectProfiles_def Let_def split: outcome.splits)
    then show ?thesis using P by simp
  next
    case True
    obtain s2 eff2 r2 where rg: "collectRegularProfile env s1 = (s2, eff2, r2)"
      by (cases "collectRegularProfile env s1") auto
    have "r2 \<noteq> Ok"
      using assms py True rg
      by (auto simp: CollectProfiles_def Let_def split: outcome.splits prod.splits)
    then have res: "s' = s2" "eff = SymCacheNextRound # eff1 @ eff2"
      using assms(1) py True rg by (auto simp: CollectProfiles_def Let_def split: outcome.splits)
    have g: "deadGrown ?s0 s2" using collectRegularProfile_inv(1)[OF rg] P by simp
    show ?thesis
      using res P collectRegularProfile_no_cleanup[OF rg] deadGrown_fields[OF g] by simp
  qed
qed

lemma CollectProfiles_envProcError:
  "CollectProfiles envProcError session1 =
     (session1\<lparr>roundNumber := 1, pids := \<lparr>unknown = [300], dead = [], all = []\<rparr>\<rparr>,
      [SymCacheNextRound, GetCountsMapValues, ClearCountsMap, ClearStacksMap [7], SymCacheCleanup,
       SymCacheRemoveDeadPID 100, PidsDelete 100, TargetFinderRemoveDeadPID 100,
       SymCacheRemoveDeadPID 200, PidsDelete 200, TargetFinderRemoveDeadPID 200],
      Ok)"
  by (simp add: CollectProfiles_def collectPythonProfile_def collectRegularProfile_def
      collectRegularEntry_def addKnownStacks_def cleanup_def Let_def
      envProcError_def env0_def session1_def session0_def newSession0_def)

lemma harvestDead_envProcError: "harvestDead envProcError session1 = [100, 200]"
  by (simp add: harvestDead_def collectPythonProfile_def collectRegularProfile_def
      collectRegularEntry_def addKnownStacks_def Let_def
      envProcError_def env0_def session1_def session0_def newSession0_def)

lemma collectRegularLoop_env0:
  assumes "FindTarget env = FindTarget env0" "GetProcTable env = GetProcTable env0"
    "LookupBytes env = LookupBytes env0"
  shows "collectRegularLoop env
       [\<lparr>Pid = 100, KernStack = - 1, UserStack = 7\<rparr>, \<lparr>Pid = 200, KernStack = - 1, UserStack = 7\<rparr>]
       [3, 5] 0 (session0\<lparr>roundNumber := roundNumber session0 + 1\<rparr>) [] =
     (session0\<lparr>roundNumber := roundNumber session0 + 1\<rparr>, [7],
      [Emit () [''leaf'', ''root'', ''nginx''] 3 100 True,
       SymtabMetricsAdd () \<lparr>known = 2, unknownSymbols = 0, unknownModules = 0\<rparr>],
      Ok)"
  by (simp add: assms env0_def session0_def newSession0_def
      collectRegularEntry_def addKnownStacks_def GetStack_def session_comm_def
      collectMetrics_def SampleAggregated_def Let_def
      WalkStack_slice0[unfolded options0_def] options0_def)

subsection \<open>Errors abort the call\<close>

text \<open>
  C6. If the python pass returns an error, \<open>CollectProfiles\<close> returns that error, the session
  is as the python pass left it (the round counted) and the trace holds the advance of the
  symbol cache and the samples of the python pass only: the regular pass emits nothing, the
  maps \<open>Counts\<close> and \<open>Stacks\<close> are neither drained nor cleared, and cleanup does not run. An
  error of the drain of \<open>Counts\<close>, or of the clearing of \<open>Counts\<close> or of \<open>Stacks\<close>, is returned
  wrapped; and whenever the call returns an error, no call of cleanup is in its trace, and
  \<open>unknown\<close> and \<open>all\<close> are as before the call, nothing having left \<open>dead\<close>.
\<close>

theorem CollectProfiles_error_aborts:
  "(fst (pythonProfile env) = Some err \<longrightarrow>
      CollectProfiles env s =
        (s\<lparr>roundNumber := roundNumber s + 1\<rparr>,
         SymCacheNextRound #
           map (\<lambda>(target, stack, p). Emit target stack 1 p SampleNotAggregated) (snd (pythonProfile env)),
         Failed err)) \<and>
   (fst (pythonProfile env) = None \<and> getCountsMapValues env = Inl err \<longrightarrow>
      snd (snd (CollectProfiles env s)) = Failed (Wrap ''get counts map'' err)) \<and>
   (\<forall>keys vs batch s1 knownStacks eff1.
      fst (pythonProfile env) = None \<and> getCountsMapValues env = Inr (keys, vs, batch) \<and>
      collectRegularLoop env keys vs 0 (s\<lparr>roundNumber := roundNumber s + 1\<rparr>) [] =
        (s1, knownStacks, eff1, Ok) \<longrightarrow>
      (clearCountsMap env keys batch = Some err \<longrightarrow>
         snd (snd (CollectProfiles env s)) = Failed (Wrap ''clear counts map'' err)) \<and>
      (clearCountsMap env keys batch = None \<and> clearStacksMap env knownStacks = Some err \<longrightarrow>
         snd (snd (CollectProfiles env s)) = Failed (Wrap ''clear stacks map'' err))) \<and>
   (\<forall>s' eff e. CollectProfiles env s = (s', eff, Failed e) \<longrightarrow>
      \<not> list_ex cleanupEffect eff \<and> unknown (pids s') = unknown (pids s) \<and>
      all (pids s') = all (pids s) \<and> set (dead (pids s)) \<subseteq> set (dead (pids s')))"
proof (intro conjI allI impI)
  assume "fst (pythonProfile env) = Some err"
  then show "CollectProfiles env s =
        (s\<lparr>roundNumber := roundNumber s + 1\<rparr>,
         SymCacheNextRound #
           map (\<lambda>(target, stack, p). Emit target stack 1 p SampleNotAggregated) (snd (pythonProfile env)),
         Failed err)"
    by (simp add: CollectProfiles_def collectPythonProfile_def Let_def)
next
  assume "fst (pythonProfile env) = None \<and> getCountsMapValues env = Inl err"
  then show "snd (snd (CollectProfiles env s)) = Failed (Wrap ''get counts map'' err)"
    by (simp add: CollectProfiles_def collectPythonProfile_def collectRegularProfile_def Let_def)
next
  fix keys vs batch s1 knownStacks eff1
  assume a: "fst (pythonProfile env) = None \<and> getCountsMapValues env = Inr (keys, vs, batch) \<and>
      collectRegularLoop env keys vs 0 (s\<lparr>roundNumber := roundNumber s + 1\<rparr>) [] =
        (s1, knownStacks, eff1, Ok)"
  {
    assume "clearCountsMap env keys batch = Some err"
    then show "snd (snd (CollectProfiles env s)) = Failed (Wrap ''clear counts map'' err)"
      using a
      by (simp add: CollectProfiles_def collectPythonProfile_def collectRegularProfile_def Let_def)
  }
  {
    assume "clearCountsMap env keys batch = None \<and> clearStacksMap env knownStacks = Some err"
    then show "snd (snd (CollectProfiles env s)) = Failed (Wrap ''clear stacks map'' err)"
      using a
      by (simp add: CollectProfiles_def collectPythonProfile_def collectRegularProfile_def Let_def)
  }
next
  fix s' eff e
  assume c: "CollectProfiles env s = (s', eff, Failed e)"
  have ne: "Failed e \<noteq> Ok" by simp
  note R = CollectProfiles_not_Ok[OF c ne]
  show "\<not> list_ex cleanupEffect eff" using R by simp
  show "unknown (pids s') = unknown (pids s)" using R by simp
  show "all (pids s') = all (pids s)" using R by simp
  show "set (dead (pids s)) \<subseteq> set (dead (pids s'))" using R by simp
qed

theorem CollectProfiles_error_aborts_witness:
  "fst (pythonProfile envPythonError) = Some (Err ''pyperf'') \<and>
   getCountsMapValues envPythonError = getCountsMapValues env0 \<and>
   CollectProfiles envPythonError session0 =
     (session0\<lparr>roundNumber := 1\<rparr>,
      [SymCacheNextRound, Emit () [''f'', ''python3''] 1 300 False],
      Failed (Err ''pyperf'')) \<and>
   snd (snd (CollectProfiles envDrainError session0)) =
     Failed (Wrap ''get counts map'' (Err ''lookup batch'')) \<and>
   snd (snd (CollectProfiles envClearCountsError session0)) =
     Failed (Wrap ''clear counts map'' (Err ''delete batch'')) \<and>
   snd (snd (CollectProfiles envClearStacksError session0)) =
     Failed (Wrap ''clear stacks map'' (Err ''delete stack'')) \<and>
   \<not> list_ex cleanupEffect (fst (snd (CollectProfiles envClearStacksError session0))) \<and>
   unknown (pids (fst (CollectProfiles envClearStacksError session0))) = [] \<and>
   all (pids (fst (CollectProfiles envClearStacksError session0))) = all (pids session0)"
proof -
  have a: "fst (pythonProfile envPythonError) = Some (Err ''pyperf'')"
    by (simp add: envPythonError_def)
  have b: "snd (pythonProfile envPythonError) = [((), [''f'', ''python3''], 300)]"
    by (simp add: envPythonError_def)
  have r: "roundNumber session0 = 0" by (simp add: session0_def newSession0_def)
  have py: "CollectProfiles envPythonError session0 =
        (session0\<lparr>roundNumber := roundNumber session0 + 1\<rparr>,
         SymCacheNextRound #
           map (\<lambda>(target, stack, p). Emit target stack 1 p SampleNotAggregated)
             (snd (pythonProfile envPythonError)),
         Failed (Err ''pyperf''))"
    using CollectProfiles_error_aborts[of envPythonError "Err ''pyperf''" session0] a by blast
  have dr: "snd (snd (CollectProfiles envDrainError session0)) =
      Failed (Wrap ''get counts map'' (Err ''lookup batch''))"
    using CollectProfiles_error_aborts[of envDrainError "Err ''lookup batch''" session0]
    by (simp add: envDrainError_def env0_def)
  have l1: "collectRegularLoop envClearCountsError
       [\<lparr>Pid = 100, KernStack = - 1, UserStack = 7\<rparr>, \<lparr>Pid = 200, KernStack = - 1, UserStack = 7\<rparr>]
       [3, 5] 0 (session0\<lparr>roundNumber := roundNumber session0 + 1\<rparr>) [] =
     (session0\<lparr>roundNumber := roundNumber session0 + 1\<rparr>, [7],
      [Emit () [''leaf'', ''root'', ''nginx''] 3 100 True,
       SymtabMetricsAdd () \<lparr>known = 2, unknownSymbols = 0, unknownModules = 0\<rparr>],
      Ok)"
    by (rule collectRegularLoop_env0) (simp_all add: envClearCountsError_def)
  have f1: "fst (pythonProfile envClearCountsError) = None"
    "getCountsMapValues envClearCountsError =
       Inr ([\<lparr>Pid = 100, KernStack = - 1, UserStack = 7\<rparr>,
             \<lparr>Pid = 200, KernStack = - 1, UserStack = 7\<rparr>], [3, 5], False)"
    "clearCountsMap envClearCountsError
       [\<lparr>Pid = 100, KernStack = - 1, UserStack = 7\<rparr>, \<lparr>Pid = 200, KernStack = - 1, UserStack = 7\<rparr>]
       False = Some (Err ''delete batch'')"
    by (simp_all add: envClearCountsError_def env0_def)
  have cc: "snd (snd (CollectProfiles envClearCountsError session0)) =
      Failed (Wrap ''clear counts map'' (Err ''delete batch''))"
    using CollectProfiles_error_aborts[of envClearCountsError "Err ''delete batch''" session0] l1 f1
    by blast
  have l2: "collectRegularLoop envClearStacksError
       [\<lparr>Pid = 100, KernStack = - 1, UserStack = 7\<rparr>, \<lparr>Pid = 200, KernStack = - 1, UserStack = 7\<rparr>]
       [3, 5] 0 (session0\<lparr>roundNumber := roundNumber session0 + 1\<rparr>) [] =
     (session0\<lparr>roundNumber := roundNumber session0 + 1\<rparr>, [7],
      [Emit () [''leaf'', ''root'', ''nginx''] 3 100 True,
       SymtabMetricsAdd () \<lparr>known = 2, unknownSymbols = 0, unknownModules = 0\<rparr>],
      Ok)"
    by (rule collectRegularLoop_env0) (simp_all add: envClearStacksError_def)
  have f2: "fst (pythonProfile envClearStacksError) = None"
    "getCountsMapValues envClearStacksError =
       Inr ([\<lparr>Pid = 100, KernStack = - 1, UserStack = 7\<rparr>,
             \<lparr>Pid = 200, KernStack = - 1, UserStack = 7\<rparr>], [3, 5], False)"
    "clearCountsMap envClearStacksError
       [\<lparr>Pid = 100, KernStack = - 1, UserStack = 7\<rparr>, \<lparr>Pid = 200, KernStack = - 1, UserStack = 7\<rparr>]
       False = None"
    "clearStacksMap envClearStacksError [7] = Some (Err ''delete stack'')"
    by (simp_all add: envClearStacksError_def env0_def)
  have cs: "snd (snd (CollectProfiles envClearStacksError session0)) =
      Failed (Wrap ''clear stacks map'' (Err ''delete stack''))"
    using CollectProfiles_error_aborts[of envClearStacksError "Err ''delete stack''" session0] l2 f2
    by blast
  obtain s' eff where c: "CollectProfiles envClearStacksError session0 =
      (s', eff, Failed (Wrap ''clear stacks map'' (Err ''delete stack'')))"
    using cs by (cases "CollectProfiles envClearStacksError session0") auto
  have n: "\<not> list_ex cleanupEffect eff \<and> unknown (pids s') = unknown (pids session0) \<and>
      all (pids s') = all (pids session0) \<and> set (dead (pids session0)) \<subseteq> set (dead (pids s'))"
    using CollectProfiles_error_aborts[of envClearStacksError "Err ''delete stack''" session0] c
    by blast
  have "unknown (pids session0) = []" by (simp add: session0_def)
  then show ?thesis
    using a py dr cc cs n c
    by (simp add: b r SampleNotAggregated_def envPythonError_def)
qed

subsection \<open>The dead set after a successful call\<close>

text \<open>
  C10. After \<open>CollectProfiles\<close> returns without error, \<open>dead\<close> is empty, and every pid that was
  in \<open>dead\<close> before the call or was marked dead by the regular pass is in neither \<open>unknown\<close> nor
  \<open>all\<close>.
\<close>

theorem CollectProfiles_purges_dead:
  assumes "CollectProfiles env s = (s', eff, Ok)"
  shows "dead (pids s') = [] \<and> set (dead (pids s)) \<subseteq> set (harvestDead env s) \<and>
         (\<forall>p \<in> set (harvestDead env s).
            p \<notin> set (unknown (pids s')) \<and> map_of (all (pids s')) p = None)"
proof -
  let ?s0 = "s\<lparr>roundNumber := roundNumber s + 1\<rparr>"
  obtain s1 eff1 r1 where py: "collectPythonProfile env ?s0 = (s1, eff1, r1)"
    by (cases "collectPythonProfile env ?s0") auto
  note P = collectPythonProfile_result[OF py]
  obtain s2 eff2 r2 where rg: "collectRegularProfile env s1 = (s2, eff2, r2)"
    by (cases "collectRegularProfile env s1") auto
  obtain s3 eff3 where cl: "cleanup env s2 = (s3, eff3 :: 'a effect list)"
    by (cases "cleanup env s2 :: session \<times> 'a effect list") auto
  have ok: "r1 = Ok \<and> r2 = Ok"
    using assms py rg by (auto simp: CollectProfiles_def Let_def split: outcome.splits prod.splits)
  then have s': "s' = s3"
    using assms py rg cl by (auto simp: CollectProfiles_def Let_def)
  have hd: "harvestDead env s = dead (pids s2)"
    using py rg by (simp add: harvestDead_def)
  have g: "deadGrown ?s0 s2" using collectRegularProfile_inv(1)[OF rg] P by simp
  have sub: "set (dead (pids s)) \<subseteq> set (harvestDead env s)"
    using deadGrown_fields(6)[OF g] hd by simp
  note C = cleanup_sets[OF cl]
  have "\<forall>p \<in> set (dead (pids s2)). p \<notin> set (unknown (pids s3)) \<and> p \<notin> dom (map_of (all (pids s3)))"
    using C(2) C(3) by auto
  then show ?thesis using C(1) s' hd sub by (auto simp: domIff)
qed

theorem CollectProfiles_purges_dead_witness:
  "CollectProfiles envProcError session1 =
     (session1\<lparr>roundNumber := 1, pids := \<lparr>unknown = [300], dead = [], all = []\<rparr>\<rparr>,
      [SymCacheNextRound, GetCountsMapValues, ClearCountsMap, ClearStacksMap [7], SymCacheCleanup,
       SymCacheRemoveDeadPID 100, PidsDelete 100, TargetFinderRemoveDeadPID 100,
       SymCacheRemoveDeadPID 200, PidsDelete 200, TargetFinderRemoveDeadPID 200],
      Ok) \<and>
   pids session1 =
     \<lparr>unknown = [200, 300], dead = [200],
      all = [(100, \<lparr>pid = 100, comm = ''nginx'', exe = [], typ' = ProfilingTypeFramepointers\<rparr>)]\<rparr> \<and>
   harvestDead envProcError session1 = [100, 200] \<and>
   dead (pids (fst (CollectProfiles envProcError session1))) = [] \<and>
   100 \<notin> set (unknown (pids (fst (CollectProfiles envProcError session1)))) \<and>
   map_of (all (pids (fst (CollectProfiles envProcError session1)))) 100 = None \<and>
   200 \<notin> set (unknown (pids (fst (CollectProfiles envProcError session1)))) \<and>
   map_of (all (pids (fst (CollectProfiles envProcError session1)))) 200 = None"
proof -
  note T = CollectProfiles_purges_dead[OF CollectProfiles_envProcError]
  have p: "pids session1 =
     \<lparr>unknown = [200, 300], dead = [200],
      all = [(100, \<lparr>pid = 100, comm = ''nginx'', exe = [], typ' = ProfilingTypeFramepointers\<rparr>)]\<rparr>"
    by (simp add: session1_def session0_def)
  have "100 \<in> set (harvestDead envProcError session1)" "200 \<in> set (harvestDead envProcError session1)"
    by (simp_all add: harvestDead_envProcError)
  then show ?thesis
    using T CollectProfiles_envProcError harvestDead_envProcError p by auto
qed

section \<open>Properties of Stop\<close>

lemma stopLocked_Ok:
  assumes "stopLocked s = (s1, eff, Ok)"
  shows "s1 = s\<lparr>perfEvents := [], kprobes := [], eventsReader := None, pidInfoRequests := None,
                 deadPIDEvents := None, pidExecRequests := None, started := False,
                 wg := filter (\<lambda>g. g \<notin> set (closedInputs s)) (wg s)\<rparr>"
  using assms
  by (auto simp: stopLocked_def stopLocked_rest_def closedInputs_def Let_def
      split: prod.splits outcome.splits)

lemma stopLocked_pids: "pids (fst (stopLocked s :: session \<times> 't effect list \<times> outcome)) = pids s"
  by (auto simp: stopLocked_def stopLocked_rest_def Let_def split: prod.splits outcome.splits)

lemma stopLocked_stopped:
  assumes "perfEvents s = []" "kprobes s = []" "eventsReader s = None" "pidInfoRequests s = None"
    "deadPIDEvents s = None" "pidExecRequests s = None" "started s = False"
  shows "stopLocked s =
           (s, CloseBpf # (case pyperf s of None \<Rightarrow> [] | Some h \<Rightarrow> [ClosePyperf h]), Ok)"
proof -
  have "s\<lparr>perfEvents := [], kprobes := [], eventsReader := None, pidInfoRequests := None,
          deadPIDEvents := None, pidExecRequests := None, started := False, wg := wg s\<rparr> = s"
    using assms by simp
  then show ?thesis
    using assms by (simp add: stopLocked_def stopLocked_rest_def closedInputs_def Let_def)
qed

lemma stopAndWait_Ok:
  assumes "stopAndWait s = (s1, eff, Ok)"
  shows "\<not> mutex s1" "wg s1 = []" "perfEvents s1 = []" "kprobes s1 = []" "eventsReader s1 = None"
    "pidInfoRequests s1 = None" "deadPIDEvents s1 = None" "pidExecRequests s1 = None"
    "started s1 = False" "pyperf s1 = pyperf s"
proof -
  have m: "\<not> mutex s" using assms by (auto simp: stopAndWait_def)
  obtain s' eff' r' where st: "stopLocked (s\<lparr>mutex := True\<rparr>) = (s', eff' :: 'a effect list, r')"
    by (cases "stopLocked (s\<lparr>mutex := True\<rparr>) :: session \<times> 'a effect list \<times> outcome") auto
  have r': "r' = Ok"
    using assms m st by (cases r') (auto simp: stopAndWait_def Let_def split: if_splits)
  have s1: "s1 = s'\<lparr>mutex := False\<rparr>" and w: "wg (s'\<lparr>mutex := False\<rparr>) = []"
    using assms m st r' by (auto simp: stopAndWait_def Let_def split: if_splits)
  note s' = stopLocked_Ok[OF st[unfolded r']]
  show "\<not> mutex s1" "wg s1 = []" "perfEvents s1 = []" "kprobes s1 = []" "eventsReader s1 = None"
    "pidInfoRequests s1 = None" "deadPIDEvents s1 = None" "pidExecRequests s1 = None"
    "started s1 = False" "pyperf s1 = pyperf s"
    using w by (simp_all add: s1 s')
qed

lemma stopAndWait_pids:
  "pids (fst (stopAndWait s :: session \<times> 'a effect list \<times> outcome)) = pids s"
proof -
  obtain s' eff' r' where st: "stopLocked (s\<lparr>mutex := True\<rparr>) = (s', eff' :: 'a effect list, r')"
    by (cases "stopLocked (s\<lparr>mutex := True\<rparr>) :: session \<times> 'a effect list \<times> outcome") auto
  moreover have "pids (fst (stopLocked (s\<lparr>mutex := True\<rparr>) :: session \<times> 'a effect list \<times> outcome)) = pids s"
    by (simp add: stopLocked_pids)
  ultimately have "pids s' = pids s" by simp
  then show ?thesis using st by (cases r') (simp_all add: stopAndWait_def Let_def)
qed

lemma Stop_sessionUp:
  "Stop sessionUp =
     (sessionDown,
      [ClosePerfEvent 1, ClosePerfEvent 2, CloseKprobe 3, CloseKprobe 4, CloseKprobe 5, CloseBpf,
       CloseEventsReader 6, CloseChan 7, CloseChan 8, CloseChan 9],
      Ok)"
  by (simp add: Stop_def stopAndWait_def stopLocked_def stopLocked_rest_def closedInputs_def Let_def
      sessionUp_def sessionDown_def session0_def newSession0_def)

lemma Stop_sessionDown: "Stop sessionDown = (sessionDown, [CloseBpf], Ok)"
  by (simp add: Stop_def stopAndWait_def stopLocked_def stopLocked_rest_def closedInputs_def Let_def
      sessionDown_def session0_def newSession0_def)

lemma Stop_sessionUpPy:
  "Stop sessionUpPy =
     (sessionDownPy,
      [ClosePerfEvent 1, ClosePerfEvent 2, CloseKprobe 3, CloseKprobe 4, CloseKprobe 5, CloseBpf,
       ClosePyperf 10, CloseEventsReader 6, CloseChan 7, CloseChan 8, CloseChan 9],
      Ok)"
  by (simp add: Stop_def stopAndWait_def stopLocked_def stopLocked_rest_def closedInputs_def Let_def
      sessionUpPy_def sessionDownPy_def sessionUp_def sessionDown_def session0_def newSession0_def)

lemma Stop_sessionDownPy:
  "Stop sessionDownPy = (sessionDownPy, [CloseBpf, ClosePyperf 10], Ok)"
  by (simp add: Stop_def stopAndWait_def stopLocked_def stopLocked_rest_def closedInputs_def Let_def
      sessionDownPy_def sessionDown_def session0_def newSession0_def)

text \<open>
  \<open>Stop\<close> does not return on every session: it blocks on a held mutex, and in \<open>Wait\<close> when a
  goroutine is left whose input the session no longer holds.
\<close>

lemma Stop_blocks:
  "snd (snd (Stop (sessionUp\<lparr>mutex := True\<rparr>) :: session \<times> unit effect list \<times> outcome)) = Blocked \<and>
   snd (snd (Stop sessionStale :: session \<times> unit effect list \<times> outcome)) = Blocked"
  by (simp add: Stop_def stopAndWait_def stopLocked_def stopLocked_rest_def closedInputs_def Let_def
      sessionStale_def sessionUp_def session0_def newSession0_def)

subsection \<open>A second Stop\<close>

text \<open>
  C7, as the claim states it, fails: \<open>stopLocked\<close> closes the BPF objects without a guard and
  does not clear them, so the second \<open>Stop\<close> of \<open>sessionUp\<close> is not free of effects: it closes
  the BPF objects, which the first \<open>Stop\<close> has closed already. Nor does it clear the handle of
  the python unwinder: the second \<open>Stop\<close> of \<open>sessionUpPy\<close> closes the unwinder again as well.
\<close>

theorem Stop_closes_again_counterexample:
  "fst (Stop sessionUp :: session \<times> unit effect list \<times> outcome) = sessionDown \<and>
   CloseBpf \<in> set (fst (snd (Stop sessionUp :: session \<times> unit effect list \<times> outcome))) \<and>
   fst (snd (Stop sessionDown :: session \<times> unit effect list \<times> outcome)) = [CloseBpf] \<and>
   fst (Stop sessionUpPy :: session \<times> unit effect list \<times> outcome) = sessionDownPy \<and>
   ClosePyperf 10 \<in> set (fst (snd (Stop sessionUpPy :: session \<times> unit effect list \<times> outcome))) \<and>
   fst (snd (Stop sessionDownPy :: session \<times> unit effect list \<times> outcome)) =
     [CloseBpf, ClosePyperf 10]"
  by (simp add: Stop_sessionUp Stop_sessionDown Stop_sessionUpPy Stop_sessionDownPy)

text \<open>
  C7, amended. On a session on which a first \<open>Stop\<close> has returned, a second \<open>Stop\<close> returns as
  well: it does not panic, and it blocks neither on the mutex nor in \<open>Wait\<close>. It leaves every
  field of the session as it is, and it closes no perf event, kprobe, ring reader or queue
  again. It is no no-op, for the first \<open>Stop\<close> has not cleared every handle: the second calls
  \<open>Close\<close> once more on the BPF objects and then, when the session has a python unwinder, on
  the unwinder. These are all the calls it makes.
\<close>

theorem Stop_again:
  assumes "Stop s = (s1, eff1 :: 't effect list, Ok)"
  shows "Stop s1 =
           (s1, CloseBpf # (case pyperf s1 of None \<Rightarrow> [] | Some h \<Rightarrow> [ClosePyperf h :: 't effect]),
            Ok) \<and>
         pyperf s1 = pyperf s"
proof -
  have a: "stopAndWait s = (s1, eff1, Ok)" using assms by (simp add: Stop_def)
  note F = stopAndWait_Ok[OF a]
  let ?t = "s1\<lparr>mutex := True\<rparr>"
  have "stopLocked ?t =
      (?t, CloseBpf # (case pyperf ?t of None \<Rightarrow> [] | Some h \<Rightarrow> [ClosePyperf h :: 't effect]), Ok)"
    by (rule stopLocked_stopped) (simp_all add: F)
  moreover have "?t\<lparr>mutex := False\<rparr> = s1" using F(1) by simp
  ultimately have "stopAndWait s1 =
      (s1, CloseBpf # (case pyperf s1 of None \<Rightarrow> [] | Some h \<Rightarrow> [ClosePyperf h :: 't effect]), Ok)"
    using F(1) F(2) by (simp add: stopAndWait_def Let_def)
  then show ?thesis using F(10) by (simp add: Stop_def)
qed

theorem Stop_again_witness:
  "Stop sessionUp =
     (sessionDown,
      [ClosePerfEvent 1, ClosePerfEvent 2, CloseKprobe 3, CloseKprobe 4, CloseKprobe 5, CloseBpf,
       CloseEventsReader 6, CloseChan 7, CloseChan 8, CloseChan 9 :: unit effect],
      Ok) \<and>
   Stop sessionDown = (sessionDown, [CloseBpf :: unit effect], Ok) \<and>
   Stop sessionUpPy =
     (sessionDownPy,
      [ClosePerfEvent 1, ClosePerfEvent 2, CloseKprobe 3, CloseKprobe 4, CloseKprobe 5, CloseBpf,
       ClosePyperf 10, CloseEventsReader 6, CloseChan 7, CloseChan 8, CloseChan 9 :: unit effect],
      Ok) \<and>
   Stop sessionDownPy = (sessionDownPy, [CloseBpf, ClosePyperf 10 :: unit effect], Ok)"
proof -
  have up: "Stop sessionUp =
     (sessionDown,
      [ClosePerfEvent 1, ClosePerfEvent 2, CloseKprobe 3, CloseKprobe 4, CloseKprobe 5, CloseBpf,
       CloseEventsReader 6, CloseChan 7, CloseChan 8, CloseChan 9 :: unit effect],
      Ok)"
    by (rule Stop_sessionUp)
  have py: "Stop sessionUpPy =
     (sessionDownPy,
      [ClosePerfEvent 1, ClosePerfEvent 2, CloseKprobe 3, CloseKprobe 4, CloseKprobe 5, CloseBpf,
       ClosePyperf 10, CloseEventsReader 6, CloseChan 7, CloseChan 8, CloseChan 9 :: unit effect],
      Ok)"
    by (rule Stop_sessionUpPy)
  have p: "pyperf sessionDown = None" "pyperf sessionDownPy = Some 10"
    by (simp_all add: sessionDownPy_def sessionDown_def session0_def newSession0_def)
  have "Stop sessionDown = (sessionDown, [CloseBpf :: unit effect], Ok)"
    using Stop_again[OF up] p(1) by simp
  moreover have "Stop sessionDownPy = (sessionDownPy, [CloseBpf, ClosePyperf 10 :: unit effect], Ok)"
    using Stop_again[OF py] p(2) by simp
  ultimately show ?thesis using up py by blast
qed

section \<open>Properties of the pid table\<close>

lemma unknownInAll_dom:
  "unknownInAll s \<longleftrightarrow> set (unknown (pids s)) \<subseteq> dom (map_of (all (pids s)))"
  by (simp add: unknownInAll_def dom_map_of_conv_image_fst)

lemma linkKProbes_loop_pids: "pids (fst (linkKProbes_loop senv hooks s)) = pids s"
proof (induction hooks arbitrary: s)
  case Nil
  then show ?case by simp
next
  case (Cons h hooks)
  obtain kprobe required where h: "h = (kprobe, required)" by (cases h) auto
  show ?case using Cons.IH by (simp add: h split: sum.splits)
qed

lemma Start_fail_pids: "pids (fst (Start_fail s eff err)) = pids s"
proof -
  obtain s1 eff1 r where st: "stopLocked s = (s1, eff1 :: 'a effect list, r)"
    by (cases "stopLocked s :: session \<times> 'a effect list \<times> outcome") auto
  then have "pids s1 = pids s" using stopLocked_pids[of s] by (metis fst_conv)
  then show ?thesis using st by (cases r) (simp_all add: Start_fail_def)
qed

lemma session_Start_pids: "pids (fst (session_Start senv s)) = pids s"
proof -
  have lk: "\<And>s0 s1 e. linkKProbes senv s0 = (s1, e) \<Longrightarrow> pids s1 = pids s0"
    using linkKProbes_loop_pids unfolding linkKProbes_def by (metis fst_conv)
  show ?thesis
    by (auto simp: session_Start_def Start_fail_pids dest!: lk
        split: option.splits sum.splits prod.splits)
qed

lemma startProfilingLocked_pids:
  assumes "startProfilingLocked env s p t = (s1, eff, r)"
  shows "unknown (pids s1) = unknown (pids s)" "dead (pids s1) = dead (pids s)"
    "dom (map_of (all (pids s))) \<subseteq> dom (map_of (all (pids s1)))"
proof -
  have "s1 = s \<or> (\<exists>pi. s1 = s\<lparr>pids := (pids s)\<lparr>all := AList.update p pi (all (pids s))\<rparr>\<rparr>)"
    using assms
    by (auto simp: startProfilingLocked_def setPidConfig_def Let_def
        split: if_splits sum.splits prod.splits panic.splits)
  then obtain al where s1: "s1 = s\<lparr>pids := (pids s)\<lparr>all := al\<rparr>\<rparr>"
    and al: "dom (map_of (all (pids s))) \<subseteq> dom (map_of al)"
  proof
    assume "s1 = s"
    then have "s1 = s\<lparr>pids := (pids s)\<lparr>all := all (pids s)\<rparr>\<rparr>" by simp
    then show ?thesis using that by blast
  next
    assume "\<exists>pi. s1 = s\<lparr>pids := (pids s)\<lparr>all := AList.update p pi (all (pids s))\<rparr>\<rparr>"
    then obtain pi where "s1 = s\<lparr>pids := (pids s)\<lparr>all := AList.update p pi (all (pids s))\<rparr>\<rparr>"
      by blast
    moreover have "dom (map_of (all (pids s))) \<subseteq> dom (map_of (AList.update p pi (all (pids s))))"
      unfolding dom_map_of_update by blast
    ultimately show ?thesis using that by blast
  qed
  show "unknown (pids s1) = unknown (pids s)" by (simp add: s1)
  show "dead (pids s1) = dead (pids s)" by (simp add: s1)
  show "dom (map_of (all (pids s))) \<subseteq> dom (map_of (all (pids s1)))" using al by (simp add: s1)
qed

lemma UpdateTargets_loop_unknownInAll:
  "unknownInAll s \<Longrightarrow> unknownInAll (fst (UpdateTargets_loop env us s))"
proof (induction us arbitrary: s)
  case Nil
  then show ?case by simp
next
  case (Cons p us)
  show ?case
  proof (cases "FindTarget env p")
    case None
    then show ?thesis using Cons by simp
  next
    case (Some t)
    obtain s1 eff r where sp: "startProfilingLocked env s p t = (s1, eff, r)"
      by (cases "startProfilingLocked env s p t") auto
    note P = startProfilingLocked_pids[OF sp]
    have i1: "unknownInAll s1" using Cons.prems P by (auto simp: unknownInAll_dom)
    let ?s2 = "s1\<lparr>pids := (pids s1)\<lparr>unknown := removeAll p (unknown (pids s1))\<rparr>\<rparr>"
    have i2: "unknownInAll ?s2" using i1 by (auto simp: unknownInAll_def)
    show ?thesis
    proof (cases "r = Ok")
      case True
      obtain s3 eff3 r3 where lp: "UpdateTargets_loop env us ?s2 = (s3, eff3, r3)"
        by (cases "UpdateTargets_loop env us ?s2") auto
      then show ?thesis
        using Some sp True Cons.IH[OF i2] by (simp add: Let_def)
    next
      case False
      then show ?thesis using Some sp i1 by (auto split: outcome.splits)
    qed
  qed
qed

lemma UpdateTargets_unknownInAll:
  "unknownInAll s \<Longrightarrow> unknownInAll (fst (UpdateTargets env s))"
proof -
  assume a: "unknownInAll s"
  obtain s1 eff r where lp: "UpdateTargets_loop env (unknown (pids s)) s = (s1, eff, r)"
    by (cases "UpdateTargets_loop env (unknown (pids s)) s") auto
  then show ?thesis
    using UpdateTargets_loop_unknownInAll[OF a, of env "unknown (pids s)"]
    by (simp add: UpdateTargets_def)
qed

lemma cleanup_unknownInAll:
  assumes "unknownInAll s"
  shows "unknownInAll (fst (cleanup env s))"
proof -
  obtain s1 eff where c: "cleanup env s = (s1, eff)" by (cases "cleanup env s") auto
  note C = cleanup_sets[OF c]
  have "set (unknown (pids s1)) \<subseteq> dom (map_of (all (pids s1)))"
    using assms C(2) C(3) by (auto simp: unknownInAll_dom)
  then show ?thesis using c by (simp add: unknownInAll_dom)
qed

lemma CollectProfiles_unknownInAll:
  assumes "unknownInAll s"
  shows "unknownInAll (fst (CollectProfiles env s))"
proof -
  obtain s' eff r where c: "CollectProfiles env s = (s', eff, r)"
    by (cases "CollectProfiles env s") auto
  show ?thesis
  proof (cases "r = Ok")
    case False
    from CollectProfiles_not_Ok[OF c False] show ?thesis
      using assms c by (simp add: unknownInAll_def)
  next
    case True
    let ?s0 = "s\<lparr>roundNumber := roundNumber s + 1\<rparr>"
    obtain s1 eff1 r1 where py: "collectPythonProfile env ?s0 = (s1, eff1, r1)"
      by (cases "collectPythonProfile env ?s0") auto
    note P = collectPythonProfile_result[OF py]
    obtain s2 eff2 r2 where rg: "collectRegularProfile env s1 = (s2, eff2, r2)"
      by (cases "collectRegularProfile env s1") auto
    have ok: "r1 = Ok \<and> r2 = Ok"
      using c True py rg
      by (auto simp: CollectProfiles_def Let_def split: outcome.splits prod.splits)
    then have s': "s' = fst (cleanup env s2)"
      using c py rg by (auto simp: CollectProfiles_def Let_def split: prod.splits)
    have g: "deadGrown ?s0 s2" using collectRegularProfile_inv(1)[OF rg] P by simp
    have "unknownInAll s2" using assms deadGrown_fields(1,2)[OF g] by (simp add: unknownInAll_def)
    then show ?thesis using cleanup_unknownInAll s' c by simp
  qed
qed

lemma processPidInfoRequest_unknownInAll:
  assumes "unknownInAll s"
  shows "unknownInAll (fst (processPidInfoRequest env s p)) \<longleftrightarrow>
         \<not> (FindTarget env p = None \<and> p \<notin> set (dead (pids s)) \<and> p \<notin> fst ` set (all (pids s)))"
proof (cases "p \<in> set (dead (pids s))")
  case True
  then show ?thesis using assms by (simp add: processPidInfoRequest_def)
next
  case nd: False
  show ?thesis
  proof (cases "FindTarget env p")
    case None
    then show ?thesis
      using assms nd
      by (auto simp: processPidInfoRequest_def saveUnknownPIDLocked_def unknownInAll_def)
  next
    case (Some t)
    obtain s1 eff r where sp: "startProfilingLocked env s p t = (s1, eff, r)"
      by (cases "startProfilingLocked env s p t") auto
    have "unknownInAll s1"
      using assms startProfilingLocked_pids[OF sp] by (auto simp: unknownInAll_dom)
    then show ?thesis using Some nd sp by (simp add: processPidInfoRequest_def)
  qed
qed

lemma processPIDExecRequest_eq: "processPIDExecRequest env s p = processPidInfoRequest env s p"
  by (simp add: processPIDExecRequest_def processPidInfoRequest_def)

subsection \<open>unknown and all\<close>

text \<open>
  C3, as the claim states it, fails: \<open>saveUnknownPIDLocked\<close> inserts the pid into \<open>unknown\<close>
  and nothing into \<open>all\<close> (which holds the known pids, without the unknown ones). On a new
  session, the info request for pid 300, which has no target, leaves 300 in \<open>unknown\<close> and
  \<open>all\<close> empty.
\<close>

theorem unknownInAll_counterexample:
  "NewSession None options0 = Inr (Inr newSession0) \<and>
   unknownInAll newSession0 \<and>
   pids (sessionStep senv0 envNoTarget (PidInfoRequest 300) newSession0) =
     \<lparr>unknown = [300], dead = [], all = []\<rparr> \<and>
   \<not> unknownInAll (sessionStep senv0 envNoTarget (PidInfoRequest 300) newSession0)"
  by (simp add: NewSession_options0)
    (simp add: unknownInAll_def sessionStep_def processPidInfoRequest_def
      saveUnknownPIDLocked_def envNoTarget_def env0_def newSession0_def)

text \<open>
  C3, amended. \<open>unknown \<subseteq> all\<close> is preserved by \<open>Start\<close>, \<open>Stop\<close>, \<open>Update\<close>, \<open>UpdateTargets\<close>,
  \<open>CollectProfiles\<close> and the processor of dead pids, and by the processors of info and exec
  requests except when the request is for a pid that has no target, is not dead and is not a
  key of \<open>all\<close>: from a session where it holds, it holds after the step exactly when the step
  is not such a request.
\<close>

theorem unknownInAll_step:
  assumes "unknownInAll s"
  shows "unknownInAll (sessionStep senv env operation s) \<longleftrightarrow> \<not> savesUnknown env operation s"
proof (cases operation)
  case OpStart
  then show ?thesis
    using assms by (simp add: sessionStep_def savesUnknown_def unknownInAll_def session_Start_pids)
next
  case OpStop
  then show ?thesis
    using assms
    by (simp add: sessionStep_def savesUnknown_def unknownInAll_def Stop_def stopAndWait_pids)
next
  case (OpUpdate opts)
  then show ?thesis
    using assms by (simp add: sessionStep_def savesUnknown_def unknownInAll_def Update_def)
next
  case OpUpdateTargets
  then show ?thesis
    using UpdateTargets_unknownInAll[OF assms] by (simp add: sessionStep_def savesUnknown_def)
next
  case OpCollectProfiles
  then show ?thesis
    using CollectProfiles_unknownInAll[OF assms] by (simp add: sessionStep_def savesUnknown_def)
next
  case (PidInfoRequest p)
  then show ?thesis
    using processPidInfoRequest_unknownInAll[OF assms]
    by (simp add: sessionStep_def savesUnknown_def)
next
  case (PidExecRequest p)
  then show ?thesis
    using processPidInfoRequest_unknownInAll[OF assms]
    by (simp add: sessionStep_def savesUnknown_def processPIDExecRequest_eq)
next
  case (PidDeadEvent p)
  then show ?thesis
    using assms
    by (simp add: sessionStep_def savesUnknown_def unknownInAll_def processDeadPIDsEvent_def)
qed

theorem unknownInAll_step_witness:
  "unknownInAll sessionKnown \<and>
   \<not> savesUnknown env0 OpCollectProfiles sessionKnown \<and>
   unknownInAll (sessionStep senv0 env0 OpCollectProfiles sessionKnown) \<and>
   unknownInAll newSession0 \<and>
   savesUnknown envNoTarget (PidExecRequest 300) newSession0 \<and>
   \<not> unknownInAll (sessionStep senv0 envNoTarget (PidExecRequest 300) newSession0)"
proof -
  have a: "unknownInAll sessionKnown"
    by (simp add: unknownInAll_def sessionKnown_def session0_def)
  have b: "\<not> savesUnknown env0 OpCollectProfiles sessionKnown"
    by (simp add: savesUnknown_def)
  have c: "unknownInAll newSession0"
    by (simp add: unknownInAll_def newSession0_def)
  have d: "savesUnknown envNoTarget (PidExecRequest 300) newSession0"
    by (simp add: savesUnknown_def envNoTarget_def env0_def newSession0_def)
  show ?thesis
    using unknownInAll_step[OF a, of senv0 env0 OpCollectProfiles]
      unknownInAll_step[OF c, of senv0 envNoTarget "PidExecRequest 300"] a b c d
    by simp
qed

end
